theory Spec2Isabelle
  imports Complex_Main "HOL-Library.Multiset"
begin

section \<open>Numbers\<close>

text \<open>
  JavaScript numbers are modelled as the reals of HOL: every arithmetic operation is the
  exact one, so rounding, infinities and NaN are outside the model. The typed arrays of the
  source (\<^verbatim>\<open>Float32Array\<close>, \<^verbatim>\<open>Float64Array\<close>) are lists of reals, and an
  array of arrays is a list of lists. Indices and lengths are natural numbers.
\<close>

section \<open>The polynomial root solver of \<^verbatim>\<open>LPCAnalyzer\<close> (formant-player.js)\<close>

type_synonym matrix = "real list list"

text \<open>An eigenvalue as the source pushes it: \<^verbatim>\<open>{ real: ..., imag: ... }\<close>.\<close>

record root =
  root_real :: real
  root_imag :: real

text \<open>\<^verbatim>\<open>H[i][j] = v\<close>\<close>

definition put :: "matrix \<Rightarrow> nat \<Rightarrow> nat \<Rightarrow> real \<Rightarrow> matrix" where
  "put H i j v = H[i := (H ! i)[j := v]]"

text \<open>\<^verbatim>\<open>for (let i = 0; i < m; i++) H[i][i] -= shift;\<close>\<close>

definition shiftDiagonal :: "matrix \<Rightarrow> nat \<Rightarrow> real \<Rightarrow> matrix" where
  "shiftDiagonal H m shift = fold (\<lambda>i H. put H i i (H ! i ! i - shift)) [0..<m] H"

text \<open>
  The inner loop of the first pass of \<^verbatim>\<open>qrStep\<close>: the rotation with cosine \<open>c\<close> and sine
  \<open>s\<close> applied to rows \<open>i\<close> and \<open>i + 1\<close>, column by column.
\<close>

definition rotateRows :: "real \<Rightarrow> real \<Rightarrow> nat \<Rightarrow> nat \<Rightarrow> matrix \<Rightarrow> matrix" where
  "rotateRows c s i m H =
     fold (\<lambda>j H.
             let temp = c * H ! i ! j + s * H ! (i + 1) ! j;
                 H = put H (i + 1) j (- s * H ! i ! j + c * H ! (i + 1) ! j)
             in put H i j temp)
          [0..<m] H"

text \<open>The inner loop of the second pass: the same rotation applied to columns \<open>i\<close> and \<open>i + 1\<close>.\<close>

definition rotateCols :: "real \<Rightarrow> real \<Rightarrow> nat \<Rightarrow> nat \<Rightarrow> matrix \<Rightarrow> matrix" where
  "rotateCols c s i m H =
     fold (\<lambda>j H.
             let temp = c * H ! j ! i + s * H ! j ! (i + 1);
                 H = put H j (i + 1) (- s * H ! j ! i + c * H ! j ! (i + 1))
             in put H j i temp)
          [0..<m] H"

text \<open>
  The first pass of \<^verbatim>\<open>qrStep\<close>: for each \<open>i < m - 1\<close> the Givens rotation is computed from
  the current matrix, stored in \<^verbatim>\<open>cos[i]\<close>, \<^verbatim>\<open>sin[i]\<close>, and applied to the rows. The state
  is the matrix with the two arrays filled so far.
\<close>

definition givensRows :: "matrix \<Rightarrow> nat \<Rightarrow> matrix \<times> real list \<times> real list" where
  "givensRows H m =
     fold (\<lambda>i (H, cs, sn).
             let a = H ! i ! i;
                 b = H ! (i + 1) ! i;
                 r = sqrt (a * a + b * b);
                 c = (if r < 1 / 10 ^ 15 then 1 else a / r);
                 s = (if r < 1 / 10 ^ 15 then 0 else b / r)
             in (rotateRows c s i m H, cs @ [c], sn @ [s]))
          [0..<m - 1] (H, [], [])"

definition givensCols :: "matrix \<Rightarrow> nat \<Rightarrow> real list \<Rightarrow> real list \<Rightarrow> matrix" where
  "givensCols H m cs sn = fold (\<lambda>i H. rotateCols (cs ! i) (sn ! i) i m H) [0..<m - 1] H"

definition qrStep :: "matrix \<Rightarrow> nat \<Rightarrow> real \<Rightarrow> matrix" where
  "qrStep H m shift =
     (let H = shiftDiagonal H m shift;
          (H, cs, sn) = givensRows H m;
          H = givensCols H m cs sn
      in shiftDiagonal H m (- shift))"

definition wilkinsonShift :: "matrix \<Rightarrow> nat \<Rightarrow> real" where
  "wilkinsonShift H m =
     (if m < 2 then H ! 0 ! 0
      else
        let a = H ! (m - 2) ! (m - 2);
            b = H ! (m - 2) ! (m - 1);
            c = H ! (m - 1) ! (m - 2);
            d = H ! (m - 1) ! (m - 1);
            trace = a + d;
            det = a * d - b * c;
            disc = trace * trace - 4 * det
        in if disc \<ge> 0 then
             let sqrtDisc = sqrt disc;
                 e1 = (trace + sqrtDisc) / 2;
                 e2 = (trace - sqrtDisc) / 2
             in if \<bar>e1 - d\<bar> < \<bar>e2 - d\<bar> then e1 else e2
           else trace / 2)"

definition maxIter :: nat where
  "maxIter = 50"

text \<open>
  The inner loop \<^verbatim>\<open>while (iter < maxIter)\<close> of \<^verbatim>\<open>computeEigenvalues\<close>. Its state is
  \<^verbatim>\<open>H\<close>, \<^verbatim>\<open>m\<close>, \<^verbatim>\<open>eigenvalues\<close> and \<^verbatim>\<open>iter\<close>; the result is that state when the loop is
  left, by one of the three \<^verbatim>\<open>break\<close>s or because \<^verbatim>\<open>iter\<close> reached \<^verbatim>\<open>maxIter\<close>. The loop
  is only entered with \<open>0 < m\<close>, so past the test \<^verbatim>\<open>m === 1\<close> the indices \<open>m - 1\<close> and
  \<open>m - 2\<close> are those of the source.
\<close>

function qrIterate :: "matrix \<Rightarrow> nat \<Rightarrow> root list \<Rightarrow> nat \<Rightarrow> matrix \<times> nat \<times> root list \<times> nat" where
  "qrIterate H m eigenvalues iter =
     (if iter < maxIter then
        if m = 1 then
          (H, 0, eigenvalues @ [\<lparr>root_real = H ! 0 ! 0, root_imag = 0\<rparr>], iter)
        else
          let subdiag = \<bar>H ! (m - 1) ! (m - 2)\<bar>;
              diag = \<bar>H ! (m - 2) ! (m - 2)\<bar> + \<bar>H ! (m - 1) ! (m - 1)\<bar>
          in if subdiag < 1 / 10 ^ 10 * diag then
               (H, m - 1, eigenvalues @ [\<lparr>root_real = H ! (m - 1) ! (m - 1), root_imag = 0\<rparr>], iter)
             else
               let a = H ! (m - 2) ! (m - 2);
                   b = H ! (m - 2) ! (m - 1);
                   c = H ! (m - 1) ! (m - 2);
                   d = H ! (m - 1) ! (m - 1);
                   trace = a + d;
                   det = a * d - b * c;
                   disc = trace * trace - 4 * det
               in if m \<ge> 2 \<and> disc < 0 then
                    let realPart = trace / 2;
                        imagPart = sqrt (- disc) / 2
                    in (H, m - 2,
                        eigenvalues @ [\<lparr>root_real = realPart, root_imag = imagPart\<rparr>,
                                       \<lparr>root_real = realPart, root_imag = - imagPart\<rparr>],
                        iter)
                  else qrIterate (qrStep H m (wilkinsonShift H m)) m eigenvalues (iter + 1)
      else (H, m, eigenvalues, iter))"
  by pat_completeness auto
termination
proof (relation "measure (\<lambda>(H, m, eigenvalues, iter). maxIter - iter)")
  show "wf (measure (\<lambda>(H, m, eigenvalues, iter). maxIter - iter))"
    by simp
next
  fix H :: matrix and m :: nat and eigenvalues :: "root list" and iter :: nat
  assume "iter < maxIter"
  then have "maxIter - (iter + 1) < maxIter - iter"
    by linarith
  then show "((qrStep H m (wilkinsonShift H m), m, eigenvalues, iter + 1), H, m, eigenvalues, iter)
      \<in> measure (\<lambda>(H, m, eigenvalues, iter). maxIter - iter)"
    by simp
qed

declare qrIterate.simps [simp del]

text \<open>
  The outer loop \<^verbatim>\<open>while (m > 0)\<close>. Nothing in its text bounds the number of rounds, so it
  is a partial function: \<open>None\<close> is a run that never leaves the loop. After the inner loop,
  \<^verbatim>\<open>iter >= maxIter\<close> pushes the first \<open>m\<close> diagonal entries and sets \<^verbatim>\<open>m = 0\<close>.
\<close>

partial_function (option) eigLoop :: "matrix \<Rightarrow> nat \<Rightarrow> root list \<Rightarrow> root list option" where
  "eigLoop H m eigenvalues =
     (if m > 0 then
        (case qrIterate H m eigenvalues 0 of
           (H, m, eigenvalues, iter) \<Rightarrow>
             if iter \<ge> maxIter then
               eigLoop H 0 (eigenvalues @ map (\<lambda>i. \<lparr>root_real = H ! i ! i, root_imag = 0\<rparr>) [0..<m])
             else eigLoop H m eigenvalues)
      else Some eigenvalues)"

definition computeEigenvalues :: "matrix \<Rightarrow> nat \<Rightarrow> root list option" where
  "computeEigenvalues matrix n = eigLoop matrix n []"

text \<open>Row \<open>i\<close> of the matrix \<^verbatim>\<open>findPolynomialRoots\<close> builds.\<close>

definition companionRow :: "real list \<Rightarrow> nat \<Rightarrow> nat \<Rightarrow> real list" where
  "companionRow coeffs n i =
     (let row = replicate n 0;
          row = (if i < n - 1 then row[i + 1 := 1] else row)
      in row[0 := - coeffs ! (n - i)])"

definition findPolynomialRoots :: "real list \<Rightarrow> root list option" where
  "findPolynomialRoots coeffs =
     (let n = length coeffs - 1
      in if n \<le> 0 then Some []
         else computeEigenvalues (map (companionRow coeffs n) [0..<n]) n)"

section \<open>The frame analysis of \<^verbatim>\<open>LPCAnalyzer\<close> (formant-player.js)\<close>

text \<open>
  Field names of HOL records are constants of the whole theory, so where two objects of the
  source share a property name (\<^verbatim>\<open>freq\<close>, \<^verbatim>\<open>amp\<close>, \<^verbatim>\<open>duration\<close>, ...) the fields carry the
  record's name in front.
\<close>

text \<open>The fields the constructor sets; \<^verbatim>\<open>this\<close> is passed to each method as \<open>an\<close>.\<close>

record analyzer =
  sampleRate :: real
  hopSize :: nat
  windowSize :: nat
  lpcOrder :: nat
  window :: "real list"

definition createHannWindow :: "nat \<Rightarrow> real list" where
  "createHannWindow size' =
     map (\<lambda>i. 0.5 * (1 - cos ((2 * pi * real i) / (real size' - 1)))) [0..<size']"

definition newLPCAnalyzer :: "real \<Rightarrow> nat \<Rightarrow> nat \<Rightarrow> analyzer" where
  "newLPCAnalyzer sampleRate' hopSize' lpcOrder' =
     \<lparr>sampleRate = sampleRate', hopSize = hopSize', windowSize = hopSize' * 2,
      lpcOrder = lpcOrder', window = createHannWindow (hopSize' * 2)\<rparr>"

text \<open>
  \<^verbatim>\<open>resample\<close>: linear interpolation. The rates are positive, so \<^verbatim>\<open>Math.floor\<close> of the
  quotient is a natural number.
\<close>

definition resample :: "real list \<Rightarrow> real \<Rightarrow> real \<Rightarrow> real list" where
  "resample audio fromRate toRate =
     (if fromRate = toRate then audio
      else
        let ratio = fromRate / toRate;
            outputLength = nat \<lfloor>real (length audio) / ratio\<rfloor>
        in map (\<lambda>i.
                  let srcIdx = real i * ratio;
                      srcFloor = nat \<lfloor>srcIdx\<rfloor>;
                      srcCeil = min (srcFloor + 1) (length audio - 1);
                      t = srcIdx - real srcFloor
                  in audio ! srcFloor * (1 - t) + audio ! srcCeil * t)
               [0..<outputLength])"

text \<open>
  \<^verbatim>\<open>preEmphasis\<close>. The write \<^verbatim>\<open>result[0] = audio[0]\<close> into an empty typed array is ignored
  by JavaScript.
\<close>

definition preEmphasis :: "real list \<Rightarrow> real \<Rightarrow> real list" where
  "preEmphasis audio coeff =
     (let result = replicate (length audio) 0;
          result = (if 0 < length audio then result[0 := audio ! 0] else result)
      in fold (\<lambda>i result. result[i := audio ! i - coeff * audio ! (i - 1)])
              [1..<length audio] result)"

definition applyWindow :: "analyzer \<Rightarrow> real list \<Rightarrow> real list" where
  "applyWindow an frame =
     (let windowed = replicate (length frame) 0;
          len = min (length frame) (length (window an))
      in fold (\<lambda>i windowed. windowed[i := frame ! i * window an ! i]) [0..<len] windowed)"

definition autocorrelate :: "real list \<Rightarrow> nat \<Rightarrow> real list" where
  "autocorrelate frame maxLag =
     map (\<lambda>lag. fold (\<lambda>i sum. sum + frame ! i * frame ! (i + lag)) [0..<length frame - lag] 0)
         [0..<maxLag]"

text \<open>The object \<^verbatim>\<open>{ coeffs, gain }\<close> that \<^verbatim>\<open>levinsonDurbin\<close> returns.\<close>

record lpcModel =
  lpc_coeffs :: "real list"
  lpc_gain :: real

text \<open>
  The body of the loop \<^verbatim>\<open>for (let i = 1; i <= p; i++)\<close> of \<^verbatim>\<open>levinsonDurbin\<close> up to the
  update of the error: the state is \<^verbatim>\<open>a\<close>, \<^verbatim>\<open>aTemp\<close> and \<^verbatim>\<open>e\<close>.
\<close>

definition ldStep :: "real list \<Rightarrow> nat \<Rightarrow> real list \<times> real list \<times> real \<Rightarrow> real list \<times> real list \<times> real" where
  "ldStep r i = (\<lambda>(a, aTemp, e).
     let lambda = fold (\<lambda>j lambda. lambda - a ! j * r ! (i - j)) [1..<i] (r ! i);
         lambda = lambda / e;
         aTemp = aTemp[i := lambda];
         aTemp = fold (\<lambda>j aTemp. aTemp[j := a ! j - lambda * a ! (i - j)]) [1..<i] aTemp;
         a = fold (\<lambda>j a. a[j := aTemp ! j]) [1..<i + 1] a;
         e = e * (1 - lambda * lambda)
     in (a, aTemp, e))"

text \<open>The loop itself, with its \<^verbatim>\<open>if (e <= 0) break\<close>; it returns \<^verbatim>\<open>a\<close> and \<^verbatim>\<open>e\<close>.\<close>

function ldLoop :: "real list \<Rightarrow> nat \<Rightarrow> nat \<Rightarrow> real list \<times> real list \<times> real \<Rightarrow> real list \<times> real" where
  "ldLoop r p i s =
     (if i \<le> p then
        (case ldStep r i s of
           (a, aTemp, e) \<Rightarrow> if e \<le> 0 then (a, e) else ldLoop r p (i + 1) (a, aTemp, e))
      else (case s of (a, aTemp, e) \<Rightarrow> (a, e)))"
  by pat_completeness auto
termination
  by (relation "measure (\<lambda>(r, p, i, s). p + 1 - i)") auto

declare ldLoop.simps [simp del]

definition levinsonDurbin :: "analyzer \<Rightarrow> real list \<Rightarrow> lpcModel" where
  "levinsonDurbin an r =
     (let p = lpcOrder an;
          a = (replicate (p + 1) 0)[0 := 1]
      in if r ! 0 < 1 / 10 ^ 10 then \<lparr>lpc_coeffs = a, lpc_gain = 0\<rparr>
         else
           let e = r ! 0;
               aTemp = replicate (p + 1) 0;
               (a, e) = ldLoop r p 1 (a, aTemp, e)
           in \<lparr>lpc_coeffs = a, lpc_gain = sqrt (max e 0)\<rparr>)"

text \<open>
  \<^verbatim>\<open>Math.atan2(y, x)\<close> on finite arguments, by the quadrants of its definition (the sign of
  a zero is not modelled).
\<close>

definition atan2 :: "real \<Rightarrow> real \<Rightarrow> real" where
  "atan2 y x =
     (if 0 < x then arctan (y / x)
      else if x < 0 then (if 0 \<le> y then arctan (y / x) + pi else arctan (y / x) - pi)
      else if 0 < y then pi / 2
      else if y < 0 then - (pi / 2)
      else 0)"

text \<open>A candidate \<^verbatim>\<open>{ freq, magnitude, bandwidth }\<close> of \<^verbatim>\<open>coeffsToFormants\<close>.\<close>

record formant =
  formant_freq :: real
  formant_magnitude :: real
  formant_bandwidth :: real

text \<open>
  The loop \<^verbatim>\<open>for (const root of roots)\<close> of \<^verbatim>\<open>coeffsToFormants\<close>, with its \<^verbatim>\<open>continue\<close>
  and its \<^verbatim>\<open>push\<close>: the part of the method that selects the candidates.
\<close>

definition selectFormants :: "analyzer \<Rightarrow> root list \<Rightarrow> real \<Rightarrow> formant list" where
  "selectFormants an roots gain =
     fold (\<lambda>root formants.
             if root_imag root \<le> 0.001 then formants
             else
               let freq = (atan2 (root_imag root) (root_real root) * sampleRate an) / (2 * pi);
                   rootMag = sqrt (root_real root * root_real root + root_imag root * root_imag root);
                   magnitude = gain / max (1 - rootMag) 0.01;
                   bandwidth = (- ln rootMag * sampleRate an) / pi
               in if freq > 90 \<and> freq < 4000 \<and> bandwidth > 0 \<and> bandwidth < 600 then
                    formants @ [\<lparr>formant_freq = freq, formant_magnitude = magnitude,
                                  formant_bandwidth = bandwidth\<rparr>]
                  else formants)
          roots []"

text \<open>The object \<^verbatim>\<open>{ frequencies, magnitudes }\<close> that \<^verbatim>\<open>coeffsToFormants\<close> returns.\<close>

record formantLists =
  frequencies :: "real list"
  magnitudes :: "real list"

text \<open>
  \<^verbatim>\<open>coeffsToFormants\<close>. \<^verbatim>\<open>Array.prototype.sort\<close> is stable, as is \<open>sort_key\<close>; the
  comparison \<^verbatim>\<open>a.freq - b.freq\<close> orders by frequency. The result is \<open>None\<close> when the root
  solver does not return.
\<close>

definition coeffsToFormants :: "analyzer \<Rightarrow> real list \<Rightarrow> real \<Rightarrow> formantLists option" where
  "coeffsToFormants an coeffs gain =
     (case findPolynomialRoots coeffs of
        None \<Rightarrow> None
      | Some roots \<Rightarrow>
          let formants = sort_key formant_freq (selectFormants an roots gain)
          in Some \<lparr>frequencies = map formant_freq formants,
                   magnitudes = map formant_magnitude formants\<rparr>)"

section \<open>Tracking and normalisation in \<^verbatim>\<open>LPCAnalyzer.analyze\<close>\<close>

text \<open>A point \<^verbatim>\<open>{ t, freq, amp }\<close> of a track, and the three tracks.\<close>

record point =
  point_t :: real
  point_freq :: real
  point_amp :: real

record trajectories =
  F1 :: "point list"
  F2 :: "point list"
  F3 :: "point list"

text \<open>\<^verbatim>\<open>magnitudes[i] || 0\<close> for an index inside the array: 0 is the only falsy real.\<close>

definition orZero :: "real \<Rightarrow> real" where
  "orZero x = (if x = 0 then 0 else x)"

text \<open>
  One round of \<^verbatim>\<open>for (let i = 0; i < 3; i++)\<close>: slot \<open>i\<close> follows candidate \<open>i\<close> when there
  is one (\<^verbatim>\<open>frequencies[i] !== undefined\<close>) with a positive frequency, else its magnitude
  decays. The state is \<^verbatim>\<open>prevFreqs\<close> and \<^verbatim>\<open>prevMags\<close>.
\<close>

definition smoothSlot :: "formantLists \<Rightarrow> nat \<Rightarrow> real list \<times> real list \<Rightarrow> real list \<times> real list" where
  "smoothSlot fl i = (\<lambda>(prevFreqs, prevMags).
     let smoothing = 0.3
     in if i < length (frequencies fl) \<and> frequencies fl ! i > 0 then
          (prevFreqs[i := prevFreqs ! i * (1 - smoothing) + frequencies fl ! i * smoothing],
           prevMags[i := prevMags ! i * (1 - smoothing) + orZero (magnitudes fl ! i) * smoothing])
        else (prevFreqs, prevMags[i := prevMags ! i * 0.8]))"

text \<open>\<^verbatim>\<open>Math.max(...prevMags, 0.001)\<close>: the largest of the magnitudes and 0.001.\<close>

definition maxMagOf :: "real list \<Rightarrow> real" where
  "maxMagOf prevMags = fold max prevMags 0.001"

text \<open>
  The frame of hop \<open>hop\<close> up to the candidates: slice, window, autocorrelation,
  Levinson-Durbin, roots, selection.
\<close>

definition frameFormants :: "analyzer \<Rightarrow> real list \<Rightarrow> nat \<Rightarrow> formantLists option" where
  "frameFormants an paddedAudio hop =
     (let startIdx = hop * hopSize an;
          frame = take (windowSize an) (drop startIdx paddedAudio);
          windowed = applyWindow an frame;
          autocorr = autocorrelate windowed (lpcOrder an + 1);
          lpc = levinsonDurbin an autocorr
      in coeffsToFormants an (lpc_coeffs lpc) (lpc_gain lpc))"

text \<open>
  The rest of the loop body: smoothing of the three slots, normalisation by the largest
  magnitude of the frame, and the three pushes. The state is \<^verbatim>\<open>prevFreqs\<close>,
  \<^verbatim>\<open>prevMags\<close> and \<^verbatim>\<open>trajectories\<close>.
\<close>

definition trackFrame ::
  "analyzer \<Rightarrow> nat \<Rightarrow> formantLists \<Rightarrow> (real list \<times> real list) \<times> trajectories
     \<Rightarrow> (real list \<times> real list) \<times> trajectories" where
  "trackFrame an hop fl = (\<lambda>(prev, tr).
     let time = (real hop * real (hopSize an)) / sampleRate an;
         (prevFreqs, prevMags) = fold (smoothSlot fl) [0..<3] prev;
         maxMag = maxMagOf prevMags
     in ((prevFreqs, prevMags),
         \<lparr>F1 = F1 tr @ [\<lparr>point_t = time, point_freq = prevFreqs ! 0,
                           point_amp = (prevMags ! 0 / maxMag) * 1.0\<rparr>],
          F2 = F2 tr @ [\<lparr>point_t = time, point_freq = prevFreqs ! 1,
                           point_amp = (prevMags ! 1 / maxMag) * 0.7\<rparr>],
          F3 = F3 tr @ [\<lparr>point_t = time, point_freq = prevFreqs ! 2,
                           point_amp = (prevMags ! 2 / maxMag) * 0.4\<rparr>]\<rparr>))"

text \<open>The loop \<^verbatim>\<open>for (let hop = 0; hop < numHops; hop++)\<close>, over the list of its hops.\<close>

fun frameLoop ::
  "analyzer \<Rightarrow> real list \<Rightarrow> nat list \<Rightarrow> (real list \<times> real list) \<times> trajectories
     \<Rightarrow> ((real list \<times> real list) \<times> trajectories) option" where
  "frameLoop an paddedAudio [] s = Some s"
| "frameLoop an paddedAudio (hop # hops) s =
     (case frameFormants an paddedAudio hop of
        None \<Rightarrow> None
      | Some fl \<Rightarrow> frameLoop an paddedAudio hops (trackFrame an hop fl s))"

text \<open>The first loop of \<^verbatim>\<open>normalizeAmplitudes\<close>: the largest amplitude of the three tracks.\<close>

definition globalMaxOf :: "trajectories \<Rightarrow> real" where
  "globalMaxOf tr =
     fold (\<lambda>formant globalMax. fold (\<lambda>point globalMax. max globalMax (point_amp point)) formant globalMax)
          [F1 tr, F2 tr, F3 tr] 0"

text \<open>
  The body of the second loop for one track. \<^verbatim>\<open>Math.pow(amp, 0.6)\<close> is \<open>powr\<close>, which
  agrees with it on the non-negative reals (\<open>0 powr 0.6 = 0\<close>).
\<close>

definition normalizeTrack :: "real \<Rightarrow> real \<Rightarrow> point list \<Rightarrow> point list" where
  "normalizeTrack globalMax weight =
     map (\<lambda>point.
            let amp = point_amp point / globalMax;
                amp = amp powr 0.6
            in point\<lparr>point_amp := amp * weight\<rparr>)"

definition normalizeAmplitudes :: "trajectories \<Rightarrow> trajectories" where
  "normalizeAmplitudes tr =
     (let globalMax = globalMaxOf tr
      in if globalMax > 0 then
           \<lparr>F1 = normalizeTrack globalMax 1.0 (F1 tr),
            F2 = normalizeTrack globalMax 0.7 (F2 tr),
            F3 = normalizeTrack globalMax 0.4 (F3 tr)\<rparr>
         else tr)"

text \<open>
  \<^verbatim>\<open>analyze\<close> up to the call of \<^verbatim>\<open>normalizeAmplitudes\<close>. \<^verbatim>\<open>this.sampleRate\<close> is set to the
  target rate before anything reads it. The method has no \<^verbatim>\<open>throw\<close>; \<open>None\<close> stands for a
  run that does not return.
\<close>

definition analyzeFrames :: "analyzer \<Rightarrow> real list \<Rightarrow> real \<Rightarrow> trajectories option" where
  "analyzeFrames an audioBuffer inputSampleRate =
     (let targetRate = 8000;
          audio = resample audioBuffer inputSampleRate targetRate;
          an = an\<lparr>sampleRate := targetRate\<rparr>;
          audio = preEmphasis audio 0.9;
          padSize = (windowSize an - hopSize an) div 2;
          paddedAudio = replicate padSize 0 @ audio @ replicate padSize 0;
          numHops = length audio div hopSize an
      in map_option snd
           (frameLoop an paddedAudio [0..<numHops]
              (([500, 1500, 2500], [0, 0, 0]), \<lparr>F1 = [], F2 = [], F3 = []\<rparr>)))"

definition analyze :: "analyzer \<Rightarrow> real list \<Rightarrow> real \<Rightarrow> trajectories option" where
  "analyze an audioBuffer inputSampleRate =
     map_option normalizeAmplitudes (analyzeFrames an audioBuffer inputSampleRate)"

section \<open>The phoneme mapper (phoneme-mapper.js)\<close>

subsection \<open>Tables\<close>

text \<open>
  The four object literals of the module, as association lists in the order of the source;
  no key occurs twice in any of them. Phoneme symbols are strings, as in the source.
\<close>

definition PHONEME_FORMANTS :: "(string \<times> real list) list" where
  "PHONEME_FORMANTS =
    [(''IY'', [270, 2290, 3010]), (''IH'', [390, 1990, 2550]), (''EH'', [530, 1840, 2480]),
     (''AE'', [660, 1720, 2410]), (''AA'', [730, 1090, 2440]), (''AO'', [570, 840, 2410]),
     (''UH'', [440, 1020, 2240]), (''UW'', [300, 870, 2240]), (''AH'', [640, 1190, 2390]),
     (''ER'', [490, 1350, 1690]), (''EY'', [450, 2000, 2600]), (''AY'', [750, 1200, 2600]),
     (''OY'', [550, 900, 2500]), (''AW'', [750, 1200, 2500]), (''OW'', [500, 900, 2500]),
     (''W'', [350, 700, 2400]), (''Y'', [300, 2200, 3000]), (''R'', [420, 1300, 1600]),
     (''L'', [400, 1100, 2600]), (''M'', [300, 1200, 2500]), (''N'', [300, 1700, 2500]),
     (''NG'', [350, 2000, 2700]), (''V'', [300, 1300, 2400]), (''DH'', [350, 1600, 2600]),
     (''Z'', [350, 1800, 2600]), (''ZH'', [350, 2000, 2600]), (''B'', [350, 1100, 2400]),
     (''D'', [350, 1700, 2600]), (''G'', [350, 2000, 2600]), (''JH'', [350, 2200, 2800]),
     (''P'', [0, 0, 0]), (''T'', [0, 0, 0]), (''K'', [0, 0, 0]), (''F'', [0, 0, 0]),
     (''TH'', [0, 0, 0]), (''S'', [0, 0, 0]), (''SH'', [0, 0, 0]), (''CH'', [0, 0, 0]),
     (''HH'', [0, 0, 0]), (''SIL'', [0, 0, 0])]"

text \<open>\<^verbatim>\<open>FORMANT_AMPLITUDES\<close>\<close>

definition FORMANT_AMPLITUDES_F1 :: real where
  "FORMANT_AMPLITUDES_F1 = 1.0"

definition FORMANT_AMPLITUDES_F2 :: real where
  "FORMANT_AMPLITUDES_F2 = 0.7"

definition FORMANT_AMPLITUDES_F3 :: real where
  "FORMANT_AMPLITUDES_F3 = 0.4"

definition LETTER_TO_PHONEME :: "(string \<times> string) list" where
  "LETTER_TO_PHONEME =
    [(''a'', ''AE''), (''e'', ''EH''), (''i'', ''IH''), (''o'', ''AA''), (''u'', ''AH''),
     (''b'', ''B''), (''c'', ''K''), (''d'', ''D''), (''f'', ''F''), (''g'', ''G''),
     (''h'', ''HH''), (''j'', ''JH''), (''k'', ''K''), (''l'', ''L''), (''m'', ''M''),
     (''n'', ''N''), (''p'', ''P''), (''q'', ''K''), (''r'', ''R''), (''s'', ''S''),
     (''t'', ''T''), (''v'', ''V''), (''w'', ''W''), (''x'', ''K''), (''y'', ''Y''),
     (''z'', ''Z'')]"

definition DIGRAPH_TO_PHONEME :: "(string \<times> string) list" where
  "DIGRAPH_TO_PHONEME =
    [(''th'', ''TH''), (''sh'', ''SH''), (''ch'', ''CH''), (''ng'', ''NG''),
     (''wh'', ''W''), (''ph'', ''F''), (''ck'', ''K''), (''ee'', ''IY''), (''ea'', ''IY''),
     (''oo'', ''UW''), (''ou'', ''AW''), (''ow'', ''OW''), (''oi'', ''OY''),
     (''oy'', ''OY''), (''ai'', ''EY''), (''ay'', ''EY''), (''ie'', ''IY''),
     (''igh'', ''AY''), (''au'', ''AO''), (''aw'', ''AO''), (''er'', ''ER''),
     (''ir'', ''ER''), (''ur'', ''ER''), (''or'', ''AO''), (''ar'', ''AA'')]"

definition WORD_PRONUNCIATIONS :: "(string \<times> string list) list" where
  "WORD_PRONUNCIATIONS =
    [(''the'', [''DH'', ''AH'']), (''a'', [''AH'']), (''an'', [''AE'', ''N'']),
     (''is'', [''IH'', ''Z'']), (''are'', [''AA'', ''R'']),
     (''was'', [''W'', ''AH'', ''Z'']), (''were'', [''W'', ''ER'']),
     (''where'', [''W'', ''EH'', ''R'']), (''what'', [''W'', ''AH'', ''T'']),
     (''when'', [''W'', ''EH'', ''N'']), (''why'', [''W'', ''AY'']),
     (''how'', [''HH'', ''AW'']), (''you'', [''Y'', ''UW'']),
     (''your'', [''Y'', ''AO'', ''R'']), (''year'', [''Y'', ''IH'', ''R'']),
     (''ago'', [''AH'', ''G'', ''OW'']), (''to'', [''T'', ''UW'']),
     (''do'', [''D'', ''UW'']), (''go'', [''G'', ''OW'']), (''no'', [''N'', ''OW'']),
     (''so'', [''S'', ''OW'']), (''of'', [''AH'', ''V'']),
     (''for'', [''F'', ''AO'', ''R'']), (''with'', [''W'', ''IH'', ''TH'']),
     (''this'', [''DH'', ''IH'', ''S'']), (''that'', [''DH'', ''AE'', ''T'']),
     (''have'', [''HH'', ''AE'', ''V'']), (''has'', [''HH'', ''AE'', ''Z'']),
     (''had'', [''HH'', ''AE'', ''D'']), (''be'', [''B'', ''IY'']),
     (''been'', [''B'', ''IH'', ''N'']), (''will'', [''W'', ''IH'', ''L'']),
     (''would'', [''W'', ''UH'', ''D'']), (''could'', [''K'', ''UH'', ''D'']),
     (''should'', [''SH'', ''UH'', ''D'']), (''can'', [''K'', ''AE'', ''N'']),
     (''from'', [''F'', ''R'', ''AH'', ''M'']), (''they'', [''DH'', ''EY'']),
     (''their'', [''DH'', ''EH'', ''R'']), (''there'', [''DH'', ''EH'', ''R'']),
     (''here'', [''HH'', ''IH'', ''R'']), (''hello'', [''HH'', ''AH'', ''L'', ''OW'']),
     (''world'', [''W'', ''ER'', ''L'', ''D'']),
     (''speech'', [''S'', ''P'', ''IY'', ''CH'']),
     (''sound'', [''S'', ''AW'', ''N'', ''D'']), (''hear'', [''HH'', ''IH'', ''R'']),
     (''listen'', [''L'', ''IH'', ''S'', ''AH'', ''N'']),
     (''voice'', [''V'', ''OY'', ''S'']), (''say'', [''S'', ''EY'']),
     (''said'', [''S'', ''EH'', ''D'']), (''word'', [''W'', ''ER'', ''D'']),
     (''words'', [''W'', ''ER'', ''D'', ''Z'']), (''one'', [''W'', ''AH'', ''N'']),
     (''two'', [''T'', ''UW'']), (''three'', [''TH'', ''R'', ''IY'']), (''i'', [''AY'']),
     (''my'', [''M'', ''AY'']), (''me'', [''M'', ''IY'']), (''we'', [''W'', ''IY'']),
     (''he'', [''HH'', ''IY'']), (''she'', [''SH'', ''IY'']), (''it'', [''IH'', ''T'']),
     (''not'', [''N'', ''AA'', ''T'']),
     ((''don'' @ [CHR 0x27] @ ''t''), [''D'', ''OW'', ''N'', ''T'']),
     (''know'', [''N'', ''OW'']), (''think'', [''TH'', ''IH'', ''NG'', ''K'']),
     (''like'', [''L'', ''AY'', ''K'']), (''just'', [''JH'', ''AH'', ''S'', ''T'']),
     (''time'', [''T'', ''AY'', ''M'']), (''good'', [''G'', ''UH'', ''D'']),
     (''new'', [''N'', ''UW'']), (''first'', [''F'', ''ER'', ''S'', ''T'']),
     (''last'', [''L'', ''AE'', ''S'', ''T'']), (''long'', [''L'', ''AO'', ''NG'']),
     (''great'', [''G'', ''R'', ''EY'', ''T'']),
     (''little'', [''L'', ''IH'', ''T'', ''AH'', ''L'']), (''own'', [''OW'', ''N'']),
     (''other'', [''AH'', ''DH'', ''ER'']), (''old'', [''OW'', ''L'', ''D'']),
     (''right'', [''R'', ''AY'', ''T'']), (''big'', [''B'', ''IH'', ''G'']),
     (''high'', [''HH'', ''AY'']), (''small'', [''S'', ''M'', ''AO'', ''L'']),
     (''next'', [''N'', ''EH'', ''K'', ''S'', ''T'']),
     (''early'', [''ER'', ''L'', ''IY'']), (''young'', [''Y'', ''AH'', ''NG'']),
     (''few'', [''F'', ''Y'', ''UW'']), (''bad'', [''B'', ''AE'', ''D'']),
     (''same'', [''S'', ''EY'', ''M'']), (''quick'', [''K'', ''W'', ''IH'', ''K'']),
     (''brown'', [''B'', ''R'', ''AW'', ''N'']), (''fox'', [''F'', ''AA'', ''K'', ''S''])]"

subsection \<open>Property lookup\<close>

text \<open>
  An object literal inherits from \<^verbatim>\<open>Object.prototype\<close>: reading a key that is not a property
  of the object itself but is one of \<^verbatim>\<open>Object.prototype\<close> gives the inherited value, a
  function (or, for \<^verbatim>\<open>__proto__\<close>, the prototype object). Such a value is truthy, is not
  an array and cannot be iterated. A lookup therefore has three outcomes.
\<close>

datatype 'a property = Own 'a | Inherited | Absent

definition objectPrototypeKeys :: "string list" where
  "objectPrototypeKeys =
    [''constructor'', ''__proto__'', ''hasOwnProperty'', ''isPrototypeOf'',
     ''propertyIsEnumerable'', ''toLocaleString'', ''toString'', ''valueOf'',
     ''__defineGetter__'', ''__defineSetter__'', ''__lookupGetter__'', ''__lookupSetter__'']"

definition getProperty :: "(string \<times> 'a) list \<Rightarrow> string \<Rightarrow> 'a property" where
  "getProperty obj key =
     (case map_of obj key of
        Some v \<Rightarrow> Own v
      | None \<Rightarrow> if key \<in> set objectPrototypeKeys then Inherited else Absent)"

subsection \<open>Text to phonemes\<close>

text \<open>
  A text is a list of characters with codes below 256. \<^verbatim>\<open>toLowerCase\<close> is modelled on the
  letters A to Z; every other character it could change is not matched by \<^verbatim>\<open>\w\<close> before
  or after, and is removed by the \<^verbatim>\<open>replace\<close> either way.
\<close>

definition toLowerChar :: "char \<Rightarrow> char" where
  "toLowerChar c =
     (if 65 \<le> (of_char c :: nat) \<and> (of_char c :: nat) \<le> 90
      then char_of (of_char c + 32 :: nat) else c)"

definition toLowerCase :: "string \<Rightarrow> string" where
  "toLowerCase text = map toLowerChar text"

text \<open>The classes \<^verbatim>\<open>\w\<close> and \<^verbatim>\<open>\s\<close> of a regular expression without the unicode flag.\<close>

definition isWordChar :: "char \<Rightarrow> bool" where
  "isWordChar c =
     (let n = (of_char c :: nat)
      in (48 \<le> n \<and> n \<le> 57) \<or> (65 \<le> n \<and> n \<le> 90) \<or> n = 95 \<or> (97 \<le> n \<and> n \<le> 122))"

definition isSpaceChar :: "char \<Rightarrow> bool" where
  "isSpaceChar c = ((of_char c :: nat) \<in> set [9, 10, 11, 12, 13, 32, 160])"

text \<open>\<^verbatim>\<open>.replace(/[^\w\s']/g, '')\<close>\<close>

definition stripPunctuation :: "string \<Rightarrow> string" where
  "stripPunctuation text = filter (\<lambda>c. isWordChar c \<or> isSpaceChar c \<or> c = CHR 0x27) text"

text \<open>
  \<^verbatim>\<open>.split(/\s+/)\<close>: the pieces between the maximal runs of white space, the empty pieces
  at either end included (\<^verbatim>\<open>"".split(/\s+/)\<close> is \<^verbatim>\<open>[""]\<close>). The flag says that the
  previous character was white space; \<open>cur\<close> is the piece being read.
\<close>

fun splitRun :: "bool \<Rightarrow> string \<Rightarrow> string \<Rightarrow> string list" where
  "splitRun inSpace cur [] = [cur]"
| "splitRun inSpace cur (c # cs) =
     (if isSpaceChar c then
        (if inSpace then splitRun True cur cs else cur # splitRun True [] cs)
      else splitRun False (cur @ [c]) cs)"

definition splitWhitespace :: "string \<Rightarrow> string list" where
  "splitWhitespace text = splitRun False [] text"

text \<open>An entry \<^verbatim>\<open>{ phoneme, duration }\<close> of the phoneme sequence.\<close>

record phonemeUnit =
  unit_phoneme :: string
  unit_duration :: real

definition getPhonemeDuration :: "string \<Rightarrow> real" where
  "getPhonemeDuration phoneme =
     (if phoneme \<in> set [''IY'', ''IH'', ''EH'', ''AE'', ''AA'', ''AO'', ''UH'', ''UW'', ''AH'',
                         ''ER'', ''EY'', ''AY'', ''OY'', ''AW'', ''OW''] then 0.10
      else if phoneme \<in> set [''M'', ''N'', ''NG'', ''L'', ''R'', ''W'', ''Y''] then 0.07
      else if phoneme \<in> set [''V'', ''DH'', ''Z'', ''ZH'', ''B'', ''D'', ''G'', ''JH''] then 0.05
      else 0.04)"

definition phonemeEntry :: "string \<Rightarrow> phonemeUnit" where
  "phonemeEntry phoneme =
     \<lparr>unit_phoneme = phoneme, unit_duration = getPhonemeDuration phoneme\<rparr>"

text \<open>
  \<^verbatim>\<open>wordToPhonemes\<close>, on the rest of the word from index \<open>i\<close> on: \<^verbatim>\<open>i + 2 < word.length\<close>
  says that at least two characters follow the current one. The keys tried in
  \<^verbatim>\<open>DIGRAPH_TO_PHONEME\<close> have two or three characters and those tried in
  \<^verbatim>\<open>LETTER_TO_PHONEME\<close> one, so no inherited property is ever read there: the shortest name
  of \<^verbatim>\<open>Object.prototype\<close> has seven.
\<close>

function wordToPhonemes :: "string \<Rightarrow> phonemeUnit list" where
  "wordToPhonemes [] = []"
| "wordToPhonemes (c # cs) =
     (case (if 2 \<le> length cs then map_of DIGRAPH_TO_PHONEME (c # take 2 cs) else None) of
        Some phoneme \<Rightarrow> phonemeEntry phoneme # wordToPhonemes (drop 2 cs)
      | None \<Rightarrow>
          (case (if 1 \<le> length cs then map_of DIGRAPH_TO_PHONEME (c # take 1 cs) else None) of
             Some phoneme \<Rightarrow> phonemeEntry phoneme # wordToPhonemes (drop 1 cs)
           | None \<Rightarrow>
               (case map_of LETTER_TO_PHONEME [c] of
                  Some phoneme \<Rightarrow> phonemeEntry phoneme # wordToPhonemes cs
                | None \<Rightarrow> wordToPhonemes cs)))"
  by pat_completeness auto
termination
  by (relation "measure length") auto

text \<open>The exceptions of the model.\<close>

datatype jsError = TypeError | SynthesisError

text \<open>
  The loop of \<^verbatim>\<open>textToPhonemes\<close> over the words from index \<open>i\<close> on; \<^verbatim>\<open>i < words.length - 1\<close>
  says that a word follows. An empty word is skipped by \<^verbatim>\<open>continue\<close>, before the pause is
  pushed. \<^verbatim>\<open>for (const phoneme of WORD_PRONUNCIATIONS[word])\<close> throws a \<^verbatim>\<open>TypeError\<close> when
  the value read is an inherited one.
\<close>

fun wordsLoop :: "string list \<Rightarrow> phonemeUnit list \<Rightarrow> jsError + phonemeUnit list" where
  "wordsLoop [] phonemes = Inr phonemes"
| "wordsLoop (word # rest) phonemes =
     (if word = [] then wordsLoop rest phonemes
      else
        (case (case getProperty WORD_PRONUNCIATIONS word of
                 Own pronunciation \<Rightarrow> Inr (phonemes @ map phonemeEntry pronunciation)
               | Inherited \<Rightarrow> Inl TypeError
               | Absent \<Rightarrow> Inr (phonemes @ wordToPhonemes word)) of
           Inl e \<Rightarrow> Inl e
         | Inr phonemes \<Rightarrow>
             wordsLoop rest
               (if rest \<noteq> [] then phonemes @ [\<lparr>unit_phoneme = ''SIL'', unit_duration = 0.06\<rparr>]
                else phonemes)))"

definition textToPhonemes :: "string \<Rightarrow> jsError + phonemeUnit list" where
  "textToPhonemes text =
     (let words = splitWhitespace (stripPunctuation (toLowerCase text))
      in wordsLoop words [])"

subsection \<open>Phonemes to trajectory\<close>

text \<open>The object \<^verbatim>\<open>{ f1, f2, f3, voiced }\<close> of \<^verbatim>\<open>getFormants\<close>.\<close>

record phonemeFormants =
  pf_f1 :: real
  pf_f2 :: real
  pf_f3 :: real
  pf_voiced :: bool

text \<open>
  \<^verbatim>\<open>getFormants\<close>. Every symbol that reaches it is a value of one of the tables above or
  \<^verbatim>\<open>SIL\<close>, of at most three characters, so the lookup is one of own properties.
\<close>

definition getFormants :: "string \<Rightarrow> phonemeFormants" where
  "getFormants phoneme =
     (let f = (case map_of PHONEME_FORMANTS phoneme of
                 Some f \<Rightarrow> f
               | None \<Rightarrow> the (map_of PHONEME_FORMANTS ''AH''))
      in \<lparr>pf_f1 = f ! 0, pf_f2 = f ! 1, pf_f3 = f ! 2, pf_voiced = (f ! 0 > 0)\<rparr>)"

text \<open>A target \<^verbatim>\<open>{ time, f1, f2, f3, amp }\<close>.\<close>

record target =
  target_time :: real
  target_f1 :: real
  target_f2 :: real
  target_f3 :: real
  target_amp :: real

text \<open>\<^verbatim>\<open>x || d\<close> on numbers.\<close>

definition orDefault :: "real \<Rightarrow> real \<Rightarrow> real" where
  "orDefault x d = (if x = 0 then d else x)"

text \<open>
  The loop over the phonemes: one target at the centre of each, and \<^verbatim>\<open>currentTime\<close> moved
  to its end. The state is \<^verbatim>\<open>targets\<close> and \<^verbatim>\<open>currentTime\<close>.
\<close>

definition addTarget :: "phonemeUnit \<Rightarrow> target list \<times> real \<Rightarrow> target list \<times> real" where
  "addTarget u = (\<lambda>(targets, currentTime).
     let formants = getFormants (unit_phoneme u);
         amp = (if pf_voiced formants then 1.0 else 0.0);
         centerTime = currentTime + unit_duration u / 2
     in (targets @ [\<lparr>target_time = centerTime,
                       target_f1 = orDefault (pf_f1 formants) 400,
                       target_f2 = orDefault (pf_f2 formants) 1500,
                       target_f3 = orDefault (pf_f3 formants) 2500,
                       target_amp = amp\<rparr>],
         currentTime + unit_duration u))"

text \<open>
  The search \<^verbatim>\<open>for (let j = 0; j < targets.length - 1; j++)\<close> for the first pair of
  neighbours around \<open>t\<close>, with its \<^verbatim>\<open>break\<close>.
\<close>

fun findBracket :: "target list \<Rightarrow> real \<Rightarrow> (target \<times> target) option" where
  "findBracket (a # b # rest) t =
     (if target_time a \<le> t \<and> target_time b > t then Some (a, b)
      else findBracket (b # rest) t)"
| "findBracket targets t = None"

text \<open>The body of the sampling loop for sample \<open>i\<close>: the three points pushed.\<close>

definition samplePoints :: "target list \<Rightarrow> nat \<Rightarrow> point \<times> point \<times> point" where
  "samplePoints targets i =
     (let sampleInterval = 0.01;
          t = real i * sampleInterval;
          (prevTarget, nextTarget) =
            (case findBracket targets t of
               Some bracket \<Rightarrow> bracket
             | None \<Rightarrow> (targets ! 0, targets ! (length targets - 1)));
          dt = target_time nextTarget - target_time prevTarget;
          alpha = (if dt > 0 then (t - target_time prevTarget) / dt else 0);
          smoothAlpha = 0.5 - 0.5 * cos (alpha * pi);
          f1 = target_f1 prevTarget + smoothAlpha * (target_f1 nextTarget - target_f1 prevTarget);
          f2 = target_f2 prevTarget + smoothAlpha * (target_f2 nextTarget - target_f2 prevTarget);
          f3 = target_f3 prevTarget + smoothAlpha * (target_f3 nextTarget - target_f3 prevTarget);
          amp = target_amp prevTarget + smoothAlpha * (target_amp nextTarget - target_amp prevTarget)
      in (\<lparr>point_t = t, point_freq = f1, point_amp = amp * FORMANT_AMPLITUDES_F1\<rparr>,
          \<lparr>point_t = t, point_freq = f2, point_amp = amp * FORMANT_AMPLITUDES_F2\<rparr>,
          \<lparr>point_t = t, point_freq = f3, point_amp = amp * FORMANT_AMPLITUDES_F3\<rparr>))"

text \<open>
  The object \<^verbatim>\<open>{ duration, formants }\<close> of \<^verbatim>\<open>phonemesToTrajectory\<close>; the constant colour
  strings of the three tracks are left out, so \<^verbatim>\<open>formants\<close> is the three point lists.
\<close>

record trajectory =
  traj_duration :: real
  traj_formants :: trajectories

definition allTargets :: "phonemeUnit list \<Rightarrow> target list \<times> real" where
  "allTargets phonemes =
     (let targets = [\<lparr>target_time = 0, target_f1 = 400, target_f2 = 1500, target_f3 = 2500,
                       target_amp = 0\<rparr>];
          currentTime = 0.02;
          (targets, currentTime) = fold addTarget phonemes (targets, currentTime)
      in (targets @ [\<lparr>target_time = currentTime + 0.02, target_f1 = 400, target_f2 = 1500,
                        target_f3 = 2500, target_amp = 0\<rparr>],
          currentTime))"

definition phonemesToTrajectory :: "phonemeUnit list \<Rightarrow> trajectory" where
  "phonemesToTrajectory phonemes =
     (let (targets, currentTime) = allTargets phonemes;
          totalDuration = currentTime + 0.04;
          sampleInterval = 0.01;
          numSamples = nat \<lceil>totalDuration / sampleInterval\<rceil>;
          points = map (samplePoints targets) [0..<numSamples + 1]
      in \<lparr>traj_duration = totalDuration,
          traj_formants = \<lparr>F1 = map fst points, F2 = map (fst \<circ> snd) points,
                            F3 = map (snd \<circ> snd) points\<rparr>\<rparr>)"

definition textToTrajectory :: "string \<Rightarrow> jsError + trajectory" where
  "textToTrajectory text =
     (case textToPhonemes text of
        Inl e \<Rightarrow> Inl e
      | Inr phonemes \<Rightarrow> Inr (phonemesToTrajectory phonemes))"

section \<open>The orchestrator \<^verbatim>\<open>FormantPlayer\<close> (formant-player.js)\<close>

text \<open>
  The object the generation methods return. The colour strings are left out as above, so
  \<^verbatim>\<open>formants\<close> is the three point lists; \<^verbatim>\<open>null\<close> is \<open>None\<close>.
\<close>

record utteranceData =
  utt_id :: string
  transcript :: string
  duration :: real
  formants :: trajectories
  originalAudio :: "real list option"
  originalSampleRate :: "real option"
  analysisMethod :: string

text \<open>
  The waveform source \<^verbatim>\<open>TTSCapture\<close> is an external collaborator: the model takes what it
  answers as a parameter. \<^verbatim>\<open>synthesize\<close> resolves with the samples or rejects (no data, a
  malformed WAV, an initialisation that timed out).
\<close>

record ttsCapture =
  tts_isReady :: bool
  tts_sampleRate :: real
  tts_synthesize :: "string \<Rightarrow> jsError + real list"

text \<open>The field of the player that the generation reads.\<close>

record formantPlayer =
  useLPCAnalysis :: bool

definition generateWithPhonemeMapping :: "string \<Rightarrow> jsError + utteranceData" where
  "generateWithPhonemeMapping text =
     (case textToTrajectory text of
        Inl e \<Rightarrow> Inl e
      | Inr trajectory \<Rightarrow>
          Inr \<lparr>utt_id = ''phoneme-mapped'', transcript = text,
               duration = traj_duration trajectory, formants = traj_formants trajectory,
               originalAudio = None, originalSampleRate = None,
               analysisMethod = ''phoneme-mapping''\<rparr>)"

text \<open>
  \<^verbatim>\<open>generateWithLPC\<close>. A rejected \<^verbatim>\<open>synthesize\<close> is thrown by the \<^verbatim>\<open>await\<close>; \<open>None\<close> is a
  run in which \<^verbatim>\<open>analyze\<close> does not return.
\<close>

definition generateWithLPC :: "ttsCapture \<Rightarrow> string \<Rightarrow> (jsError + utteranceData) option" where
  "generateWithLPC tts text =
     (let ttsSampleRate = tts_sampleRate tts
      in case tts_synthesize tts text of
           Inl e \<Rightarrow> Some (Inl e)
         | Inr audioBuffer \<Rightarrow>
             (let lpcAnalyzer = newLPCAnalyzer 8000 256 12
              in case analyze lpcAnalyzer audioBuffer ttsSampleRate of
                   None \<Rightarrow> None
                 | Some trajectories \<Rightarrow>
                     (let duration' = real (length audioBuffer) / ttsSampleRate
                      in Some (Inr \<lparr>utt_id = ''lpc-analyzed'', transcript = text,
                                     duration = duration', formants = trajectories,
                                     originalAudio = Some audioBuffer,
                                     originalSampleRate = Some ttsSampleRate,
                                     analysisMethod = ''lpc''\<rparr>))))"

text \<open>
  \<^verbatim>\<open>generateFromText\<close>: what the promise settles with, \<open>Inr\<close> when it resolves and \<open>Inl\<close> when
  it rejects. The \<^verbatim>\<open>try\<close> block holds both branches; the \<^verbatim>\<open>catch\<close> block calls
  \<^verbatim>\<open>generateWithPhonemeMapping\<close> outside any handler. The callbacks (\<^verbatim>\<open>onAnalysisStart\<close>,
  \<^verbatim>\<open>onStateChange\<close>, \<^verbatim>\<open>onAnalysisComplete\<close>) belong to the user interface and are taken not
  to throw.
\<close>

definition generateFromText ::
  "formantPlayer \<Rightarrow> ttsCapture \<Rightarrow> string \<Rightarrow> (jsError + utteranceData) option" where
  "generateFromText player tts text =
     (case (if useLPCAnalysis player \<and> tts_isReady tts then generateWithLPC tts text
            else Some (generateWithPhonemeMapping text)) of
        None \<Rightarrow> None
      | Some (Inr utteranceData) \<Rightarrow> Some (Inr utteranceData)
      | Some (Inl error) \<Rightarrow> Some (generateWithPhonemeMapping text))"

section \<open>Notions used to state the properties\<close>

subsection \<open>Root solver\<close>

text \<open>
  The tests of the inner loop, named so that the proofs below can follow the control flow
  without the arithmetic: the deflation test on the sub-diagonal entry, the discriminant of
  the trailing 2\<times>2 block, and the eigenvalues pushed for it.
\<close>

definition smallSubdiag :: "matrix \<Rightarrow> nat \<Rightarrow> bool" where
  "smallSubdiag H m \<longleftrightarrow>
     \<bar>H ! (m - 1) ! (m - 2)\<bar> < 1 / 10 ^ 10 * (\<bar>H ! (m - 2) ! (m - 2)\<bar> + \<bar>H ! (m - 1) ! (m - 1)\<bar>)"

definition blockDisc :: "matrix \<Rightarrow> nat \<Rightarrow> real" where
  "blockDisc H m =
     (H ! (m - 2) ! (m - 2) + H ! (m - 1) ! (m - 1)) * (H ! (m - 2) ! (m - 2) + H ! (m - 1) ! (m - 1))
     - 4 * (H ! (m - 2) ! (m - 2) * H ! (m - 1) ! (m - 1) - H ! (m - 2) ! (m - 1) * H ! (m - 1) ! (m - 2))"

definition realRoot :: "real \<Rightarrow> root" where
  "realRoot x = \<lparr>root_real = x, root_imag = 0\<rparr>"

definition blockRoots :: "matrix \<Rightarrow> nat \<Rightarrow> root list" where
  "blockRoots H m =
     [\<lparr>root_real = (H ! (m - 2) ! (m - 2) + H ! (m - 1) ! (m - 1)) / 2, root_imag = sqrt (- blockDisc H m) / 2\<rparr>,
      \<lparr>root_real = (H ! (m - 2) ! (m - 2) + H ! (m - 1) ! (m - 1)) / 2, root_imag = - (sqrt (- blockDisc H m) / 2)\<rparr>]"

text \<open>
  A matrix on which the iteration never deflates: the matrix \<^verbatim>\<open>findPolynomialRoots\<close> builds
  for the coefficients \<open>[1, -1, 0, 0]\<close>. The shift is 0, both rotations are the identity
  (\<open>r < 1e-15\<close>), so \<^verbatim>\<open>qrStep\<close> returns the matrix unchanged, fifty times.
\<close>

definition capMatrix :: matrix where
  "capMatrix = [[0, 1, 0], [0, 0, 1], [1, 0, 0]]"

subsection \<open>Levinson-Durbin recursion\<close>

text \<open>
  The recursion as the specification words it: the state after the orders \<open>1, ..., k\<close> have
  been run one after the other, with no test in between, from \<open>a = [1, 0, ..., 0]\<close> and
  \<open>e = r[0]\<close>; its coefficient vector and its prediction error.
\<close>

fun ldRun :: "real list \<Rightarrow> nat \<Rightarrow> nat \<Rightarrow> real list \<times> real list \<times> real" where
  "ldRun r p 0 = ((replicate (p + 1) 0)[0 := 1], replicate (p + 1) 0, r ! 0)"
| "ldRun r p (Suc k) = ldStep r (Suc k) (ldRun r p k)"

definition ldCoeffs :: "real list \<Rightarrow> nat \<Rightarrow> nat \<Rightarrow> real list" where
  "ldCoeffs r p k = fst (ldRun r p k)"

definition ldError :: "real list \<Rightarrow> nat \<Rightarrow> nat \<Rightarrow> real" where
  "ldError r p k = snd (snd (ldRun r p k))"

subsection \<open>Formant selector\<close>

text \<open>
  The quantities of a root as the specification names them: the frequency of its angle, its
  magnitude \<open>\<rho>\<close>, the bandwidth and the magnitude derived from \<open>\<rho>\<close>, the admission test, and the
  candidate built from an admitted root.
\<close>

definition rootFreq :: "analyzer \<Rightarrow> root \<Rightarrow> real" where
  "rootFreq an rt = (atan2 (root_imag rt) (root_real rt) * sampleRate an) / (2 * pi)"

definition rootMag :: "root \<Rightarrow> real" where
  "rootMag rt = sqrt (root_real rt * root_real rt + root_imag rt * root_imag rt)"

definition rootBandwidth :: "analyzer \<Rightarrow> root \<Rightarrow> real" where
  "rootBandwidth an rt = (- ln (rootMag rt) * sampleRate an) / pi"

definition rootMagnitude :: "real \<Rightarrow> root \<Rightarrow> real" where
  "rootMagnitude g rt = g / max (1 - rootMag rt) 0.01"

definition accepted :: "analyzer \<Rightarrow> root \<Rightarrow> bool" where
  "accepted an rt \<longleftrightarrow>
     root_imag rt > 0.001
     \<and> 90 < rootFreq an rt \<and> rootFreq an rt < 4000
     \<and> 0 < rootBandwidth an rt \<and> rootBandwidth an rt < 600"

definition candidate :: "analyzer \<Rightarrow> real \<Rightarrow> root \<Rightarrow> formant" where
  "candidate an g rt =
     \<lparr>formant_freq = rootFreq an rt, formant_magnitude = rootMagnitude g rt,
      formant_bandwidth = rootBandwidth an rt\<rparr>"

text \<open>The test of \<^verbatim>\<open>analyze\<close> for slot \<open>i\<close> to follow candidate \<open>i\<close>.\<close>

definition slotFollows :: "formantLists \<Rightarrow> nat \<Rightarrow> bool" where
  "slotFollows fl i \<longleftrightarrow> i < length (frequencies fl) \<and> frequencies fl ! i > 0"

subsection \<open>Phoneme mapper\<close>

text \<open>The nine phoneme units of "hello world".\<close>

definition helloWorld :: "phonemeUnit list" where
  "helloWorld =
     [\<lparr>unit_phoneme = ''HH'', unit_duration = 0.04\<rparr>, \<lparr>unit_phoneme = ''AH'', unit_duration = 0.10\<rparr>,
      \<lparr>unit_phoneme = ''L'', unit_duration = 0.07\<rparr>, \<lparr>unit_phoneme = ''OW'', unit_duration = 0.10\<rparr>,
      \<lparr>unit_phoneme = ''SIL'', unit_duration = 0.06\<rparr>,
      \<lparr>unit_phoneme = ''W'', unit_duration = 0.07\<rparr>, \<lparr>unit_phoneme = ''ER'', unit_duration = 0.10\<rparr>,
      \<lparr>unit_phoneme = ''L'', unit_duration = 0.07\<rparr>, \<lparr>unit_phoneme = ''D'', unit_duration = 0.05\<rparr>]"

subsection \<open>Tracking, normalisation and analysis\<close>

text \<open>
  The frame loop of \<^verbatim>\<open>analyze\<close> with the candidates of each hop given: the tracks before
  \<^verbatim>\<open>normalizeAmplitudes\<close>, from the initial \<^verbatim>\<open>prevFreqs\<close> and \<^verbatim>\<open>prevMags\<close>.
\<close>

definition trackAll :: "analyzer \<Rightarrow> (nat \<times> formantLists) list \<Rightarrow> trajectories" where
  "trackAll an frames =
     snd (fold (\<lambda>(hop, fl). trackFrame an hop fl) frames
            (([500, 1500, 2500], [0, 0, 0]), \<lparr>F1 = [], F2 = [], F3 = []\<rparr>))"

text \<open>
  What \<^verbatim>\<open>coeffsToFormants\<close> guarantees of its result: as many magnitudes as frequencies,
  none of them negative.
\<close>

definition goodCandidates :: "formantLists \<Rightarrow> bool" where
  "goodCandidates fl \<longleftrightarrow>
     length (magnitudes fl) = length (frequencies fl) \<and> list_all (\<lambda>m. 0 \<le> m) (magnitudes fl)"

text \<open>The invariant of \<^verbatim>\<open>prevFreqs\<close> and \<^verbatim>\<open>prevMags\<close>.\<close>

definition trackState :: "real list \<times> real list \<Rightarrow> bool" where
  "trackState s \<longleftrightarrow>
     length (fst s) = 3 \<and> length (snd s) = 3
     \<and> list_all (\<lambda>f. 0 < f) (fst s) \<and> list_all (\<lambda>m. 0 \<le> m) (snd s)"

text \<open>
  The time of a hop, a track whose points are those of the given hops with amplitudes in
  \<open>[0, w]\<close>, and one such point.
\<close>

definition hopTime :: "analyzer \<Rightarrow> nat \<Rightarrow> real" where
  "hopTime an hop = (real hop * real (hopSize an)) / sampleRate an"

definition trackOf :: "analyzer \<Rightarrow> real \<Rightarrow> nat list \<Rightarrow> point list \<Rightarrow> bool" where
  "trackOf an w hops ps \<longleftrightarrow>
     map point_t ps = map (hopTime an) hops
     \<and> list_all (\<lambda>p. 0 < point_freq p \<and> 0 \<le> point_amp p \<and> point_amp p \<le> w) ps"

definition framePoint :: "analyzer \<Rightarrow> nat \<Rightarrow> real \<Rightarrow> point \<Rightarrow> bool" where
  "framePoint an hop w p \<longleftrightarrow>
     point_t p = hopTime an hop \<and> 0 < point_freq p \<and> 0 \<le> point_amp p \<and> point_amp p \<le> w"

text \<open>
  All points of the three tracks, and the amplitude the second loop of
  \<^verbatim>\<open>normalizeAmplitudes\<close> writes for amplitude \<open>a\<close>, maximum \<open>G\<close> and tier weight \<open>w\<close>.
\<close>

definition allPoints :: "trajectories \<Rightarrow> point list" where
  "allPoints tr = F1 tr @ F2 tr @ F3 tr"

definition normAmp :: "real \<Rightarrow> real \<Rightarrow> real \<Rightarrow> real" where
  "normAmp G w a = (a / G) powr 0.6 * w"

text \<open>
  Two utterances of one frame, by their candidates. In the first the only candidate has
  frequency 2000 and magnitude 10, the result of \<^verbatim>\<open>coeffsToFormants\<close> for the coefficients
  \<open>[1, 0.81, 0]\<close> and gain 1. In the second the first candidate has magnitude 10
  (\<open>\<rho> = 0.9\<close>) and the second magnitude 100 (\<open>\<rho> \<ge> 0.99\<close>): the second resonance is the
  sharper one.
\<close>

definition loudF1Frames :: "(nat \<times> formantLists) list" where
  "loudF1Frames = [(0, \<lparr>frequencies = [2000], magnitudes = [10]\<rparr>)]"

definition loudF2Frames :: "(nat \<times> formantLists) list" where
  "loudF2Frames = [(0, \<lparr>frequencies = [1000, 2000], magnitudes = [10, 100]\<rparr>)]"

text \<open>The hops of an analysis with their candidates.\<close>

definition analysisFrames :: "analyzer \<Rightarrow> real list \<Rightarrow> real \<Rightarrow> (nat \<times> formantLists) list" where
  "analysisFrames an audioBuffer inputSampleRate =
     (let audio = preEmphasis (resample audioBuffer inputSampleRate 8000) 0.9;
          an = an\<lparr>sampleRate := 8000\<rparr>;
          padSize = (windowSize an - hopSize an) div 2;
          paddedAudio = replicate padSize 0 @ audio @ replicate padSize 0
      in map (\<lambda>hop. (hop, the (frameFormants an paddedAudio hop))) [0..<length audio div hopSize an])"

text \<open>
  A well-formed trajectory: three tracks of equal length over the same strictly increasing
  times, no negative frequency, every amplitude in \<open>[0, 1]\<close>.
\<close>

definition wellFormed :: "trajectories \<Rightarrow> bool" where
  "wellFormed tr \<longleftrightarrow>
     length (F1 tr) = length (F2 tr) \<and> length (F2 tr) = length (F3 tr)
     \<and> map point_t (F1 tr) = map point_t (F2 tr) \<and> map point_t (F2 tr) = map point_t (F3 tr)
     \<and> sorted_wrt (<) (map point_t (F1 tr))
     \<and> list_all (\<lambda>p. 0 \<le> point_freq p \<and> 0 \<le> point_amp p \<and> point_amp p \<le> 1) (allPoints tr)"

subsection \<open>Phoneme path and orchestrator\<close>

text \<open>
  A target with no negative frequency and an amplitude in \<open>[0, 1]\<close>, and a point of sample
  \<open>i\<close> with the same bounds.
\<close>

definition goodTarget :: "target \<Rightarrow> bool" where
  "goodTarget g \<longleftrightarrow>
     0 \<le> target_f1 g \<and> 0 \<le> target_f2 g \<and> 0 \<le> target_f3 g
     \<and> 0 \<le> target_amp g \<and> target_amp g \<le> 1"

definition goodSample :: "nat \<Rightarrow> point \<Rightarrow> bool" where
  "goodSample i p \<longleftrightarrow>
     point_t p = real i * 0.01 \<and> 0 \<le> point_freq p \<and> 0 \<le> point_amp p \<and> point_amp p \<le> 1"

text \<open>
  Three waveform sources: one that is not ready, one that is ready and rejects every
  request, and one that is ready and answers every request with three samples at 8000 Hz.
\<close>

definition noWaveform :: ttsCapture where
  "noWaveform = \<lparr>tts_isReady = False, tts_sampleRate = 22050,
                  tts_synthesize = (\<lambda>text. Inl SynthesisError)\<rparr>"

definition failingWaveform :: ttsCapture where
  "failingWaveform = \<lparr>tts_isReady = True, tts_sampleRate = 22050,
                       tts_synthesize = (\<lambda>text. Inl SynthesisError)\<rparr>"

definition shortWaveform :: ttsCapture where
  "shortWaveform = \<lparr>tts_isReady = True, tts_sampleRate = 8000,
                     tts_synthesize = (\<lambda>text. Inr [0, 0, 0])\<rparr>"

text \<open>
  The utterance of the phoneme path for the empty text: seven points per track, at
  0, 0.01, ..., 0.06, at the rest frequencies 400, 1500 and 2500, all with amplitude 0.
\<close>

definition silentTrack :: "real \<Rightarrow> point list" where
  "silentTrack f = map (\<lambda>i. \<lparr>point_t = real i * 0.01, point_freq = f, point_amp = 0\<rparr>) [0..<7]"

definition silentUtterance :: utteranceData where
  "silentUtterance =
     \<lparr>utt_id = ''phoneme-mapped'', transcript = [], duration = 0.06,
      formants = \<lparr>F1 = silentTrack 400, F2 = silentTrack 1500, F3 = silentTrack 2500\<rparr>,
      originalAudio = None, originalSampleRate = None, analysisMethod = ''phoneme-mapping''\<rparr>"

section \<open>Properties of the root solver\<close>

lemma qrIterate_unfold:
  "qrIterate H m evs iter =
     (if \<not> iter < maxIter then (H, m, evs, iter)
      else if m = 1 then (H, 0, evs @ [realRoot (H ! 0 ! 0)], iter)
      else if smallSubdiag H m then (H, m - 1, evs @ [realRoot (H ! (m - 1) ! (m - 1))], iter)
      else if m \<ge> 2 \<and> blockDisc H m < 0 then (H, m - 2, evs @ blockRoots H m, iter)
      else qrIterate (qrStep H m (wilkinsonShift H m)) m evs (iter + 1))"
  by (subst qrIterate.simps)
     (simp add: Let_def smallSubdiag_def blockDisc_def realRoot_def blockRoots_def)

text \<open>
  One run of the inner loop entered with \<open>0 < m\<close> either leaves by a \<^verbatim>\<open>break\<close>, with
  \<^verbatim>\<open>iter\<close> below the cap, \<open>m\<close> smaller and one eigenvalue pushed per unit of \<open>m\<close> removed, or
  runs into the cap with \<open>m\<close> and the eigenvalues untouched.
\<close>

lemma qrIterate_result:
  "qrIterate H m evs iter = (H', m', evs', iter') \<Longrightarrow> 0 < m \<Longrightarrow> iter \<le> maxIter \<Longrightarrow>
     (iter' < maxIter \<and> m' < m \<and> length evs' = length evs + (m - m'))
     \<or> (iter' = maxIter \<and> m' = m \<and> evs' = evs)"
proof (induction k \<equiv> "maxIter - iter" arbitrary: H iter)
  case 0
  then have "\<not> iter < maxIter" "iter = maxIter"
    by simp_all
  with "0.prems" qrIterate_unfold [of H m evs iter] show ?case
    by simp
next
  case (Suc k)
  then have less: "iter < maxIter"
    by simp
  note unfold = qrIterate_unfold [of H m evs iter]
  consider (one) "m = 1"
    | (defl) "m \<noteq> 1" "smallSubdiag H m"
    | (pair) "m \<noteq> 1" "\<not> smallSubdiag H m" "m \<ge> 2 \<and> blockDisc H m < 0"
    | (step) "m \<noteq> 1" "\<not> smallSubdiag H m" "\<not> (m \<ge> 2 \<and> blockDisc H m < 0)"
    by blast
  then show ?case
  proof cases
    case one
    with less Suc.prems unfold show ?thesis by auto
  next
    case defl
    with less Suc.prems unfold show ?thesis by auto
  next
    case pair
    with less Suc.prems unfold show ?thesis by (auto simp: blockRoots_def)
  next
    case step
    with less Suc.prems unfold
    have rec: "qrIterate (qrStep H m (wilkinsonShift H m)) m evs (iter + 1) = (H', m', evs', iter')"
      by simp
    from Suc.hyps(2) have "k = maxIter - (iter + 1)"
      by simp
    moreover from less have "iter + 1 \<le> maxIter"
      by simp
    ultimately show ?thesis
      using Suc.hyps(1) [OF _ rec] Suc.prems(2) by blast
  qed
qed

text \<open>The outer loop returns, and with \<open>m\<close> more eigenvalues than it started with.\<close>

lemma eigLoop_returns:
  "\<exists>r. eigLoop H m evs = Some r \<and> length r = length evs + m"
proof (induction m arbitrary: H evs rule: less_induct)
  case (less m)
  show ?case
  proof (cases "0 < m")
    case False
    then show ?thesis
      by (subst eigLoop.simps) simp
  next
    case True
    obtain H' m' evs' iter' where q: "qrIterate H m evs 0 = (H', m', evs', iter')"
      by (metis prod_cases4)
    from qrIterate_result [OF q True] consider
      (brk) "iter' < maxIter" "m' < m" "length evs' = length evs + (m - m')"
      | (cap) "iter' = maxIter" "m' = m" "evs' = evs"
      by auto
    then show ?thesis
    proof cases
      case brk
      from less.IH [OF brk(2), of H' evs'] obtain r
        where r: "eigLoop H' m' evs' = Some r" "length r = length evs' + m'"
        by blast
      from True q brk(1) have "eigLoop H m evs = eigLoop H' m' evs'"
        by (subst eigLoop.simps) simp
      with r brk show ?thesis
        by simp
    next
      case cap
      have "eigLoop H' 0 (evs' @ map (\<lambda>i. \<lparr>root_real = H' ! i ! i, root_imag = 0\<rparr>) [0..<m'])
          = Some (evs' @ map (\<lambda>i. \<lparr>root_real = H' ! i ! i, root_imag = 0\<rparr>) [0..<m'])"
        by (subst eigLoop.simps) simp
      moreover from True q cap(1) have "eigLoop H m evs
          = eigLoop H' 0 (evs' @ map (\<lambda>i. \<lparr>root_real = H' ! i ! i, root_imag = 0\<rparr>) [0..<m'])"
        by (subst eigLoop.simps) simp
      ultimately show ?thesis
        using cap by simp
    qed
  qed
qed

lemma upt3: "[0..<3] = [0, 1, 2]" "[0..<3 - 1] = [0, 1]" "[0..<2] = [0,1]"
  by (simp_all add: numeral_3_eq_3 numeral_2_eq_2)

lemma cap_shift: "wilkinsonShift capMatrix 3 = 0"
  by (simp add: wilkinsonShift_def capMatrix_def Let_def)

lemma cap_shiftDiagonal: "shiftDiagonal capMatrix 3 0 = capMatrix"
  by (simp add: shiftDiagonal_def put_def capMatrix_def upt3)

lemma cap_rotateRows: "rotateRows 1 0 0 3 capMatrix = capMatrix" "rotateRows 1 0 (Suc 0) 3 capMatrix = capMatrix"
  by (simp_all add: rotateRows_def put_def capMatrix_def upt3 Let_def)

lemma cap_rotateCols: "rotateCols 1 0 0 3 capMatrix = capMatrix" "rotateCols 1 0 (Suc 0) 3 capMatrix = capMatrix"
  by (simp_all add: rotateCols_def put_def capMatrix_def upt3 Let_def)

lemma cap_givensRows: "givensRows capMatrix 3 = (capMatrix, [1, 1], [0, 0])"
  by (simp add: givensRows_def upt3 Let_def cap_rotateRows) (simp add: capMatrix_def cap_rotateRows [unfolded capMatrix_def])

lemma cap_givensCols: "givensCols capMatrix 3 [1, 1] [0, 0] = capMatrix"
  by (simp add: givensCols_def upt3 cap_rotateCols)

lemma cap_step: "qrStep capMatrix 3 0 = capMatrix"
  by (simp add: qrStep_def cap_shiftDiagonal cap_givensRows cap_givensCols)

lemma cap_conds: "\<not> smallSubdiag capMatrix 3" "\<not> blockDisc capMatrix 3 < 0"
  by (simp_all add: smallSubdiag_def blockDisc_def capMatrix_def)

lemma cap_iterate: "iter \<le> maxIter \<Longrightarrow> qrIterate capMatrix 3 evs iter = (capMatrix, 3, evs, maxIter)"
proof (induction k \<equiv> "maxIter - iter" arbitrary: iter)
  case 0
  then show ?case
    by (subst qrIterate_unfold) simp
next
  case (Suc k)
  then have "qrIterate capMatrix 3 evs (iter + 1) = (capMatrix, 3, evs, maxIter)"
    by simp
  moreover from Suc.hyps(2) have "iter < maxIter"
    by simp
  ultimately show ?case
    by (subst qrIterate_unfold) (simp add: cap_conds cap_shift cap_step)
qed

text \<open>
  Claim C7. \<^verbatim>\<open>computeEigenvalues\<close> returns for every matrix \<open>M\<close> and size \<open>n\<close>. In every
  round of the outer loop (entered with \<open>0 < m\<close>, the inner loop started at \<^verbatim>\<open>iter = 0\<close>)
  the inner loop ends with \<^verbatim>\<open>iter\<close> at most \<^verbatim>\<open>maxIter\<close> = 50; \<^verbatim>\<open>iter\<close> counts the calls of
  \<^verbatim>\<open>qrStep\<close> of the round. A round that ends below the cap has made \<open>m\<close> smaller; a round
  that reaches the cap makes the loop return at once, with the first \<open>m\<close> diagonal entries of
  the current matrix appended as real eigenvalues.
\<close>

theorem computeEigenvalues_terminates:
  assumes "0 < m" and "qrIterate H m evs 0 = (H', m', evs', iter')"
  shows "(\<exists>r. computeEigenvalues M n = Some r)
    \<and> (\<exists>r. eigLoop H m evs = Some r)
    \<and> maxIter = 50 \<and> iter' \<le> maxIter
    \<and> (iter' < maxIter \<longrightarrow> m' < m)
    \<and> (iter' = maxIter \<longrightarrow>
         eigLoop H m evs = Some (evs @ map (\<lambda>i. \<lparr>root_real = H' ! i ! i, root_imag = 0\<rparr>) [0..<m]))"
proof -
  have "\<exists>r. computeEigenvalues M n = Some r"
    using eigLoop_returns [of M n "[]"] by (auto simp: computeEigenvalues_def)
  moreover have "\<exists>r. eigLoop H m evs = Some r"
    using eigLoop_returns [of H m evs] by blast
  moreover from qrIterate_result [OF assms(2) assms(1)]
  have res: "(iter' < maxIter \<and> m' < m) \<or> (iter' = maxIter \<and> m' = m \<and> evs' = evs)"
    by auto
  moreover have "eigLoop H m evs = Some (evs @ map (\<lambda>i. \<lparr>root_real = H' ! i ! i, root_imag = 0\<rparr>) [0..<m])"
    if "iter' = maxIter"
  proof -
    from that res have eq: "m' = m" "evs' = evs"
      by auto
    have "eigLoop H m evs
        = eigLoop H' 0 (evs @ map (\<lambda>i. \<lparr>root_real = H' ! i ! i, root_imag = 0\<rparr>) [0..<m])"
      using assms that eq by (subst eigLoop.simps) simp
    also have "\<dots> = Some (evs @ map (\<lambda>i. \<lparr>root_real = H' ! i ! i, root_imag = 0\<rparr>) [0..<m])"
      by (subst eigLoop.simps) simp
    finally show ?thesis .
  qed
  ultimately show ?thesis
    by (auto simp: maxIter_def)
qed

theorem computeEigenvalues_terminates_witness:
  "qrIterate [[0, 1, 0], [0, 0, 1], [1, 0, 0]] 3 [] 0 = ([[0, 1, 0], [0, 0, 1], [1, 0, 0]], 3, [], 50)
   \<and> computeEigenvalues [[0, 1, 0], [0, 0, 1], [1, 0, 0]] 3
       = Some [\<lparr>root_real = 0, root_imag = 0\<rparr>, \<lparr>root_real = 0, root_imag = 0\<rparr>,
               \<lparr>root_real = 0, root_imag = 0\<rparr>]
   \<and> qrIterate [[0, 1], [- 1, 0]] 2 [] 0
       = ([[0, 1], [- 1, 0]], 0, [\<lparr>root_real = 0, root_imag = 1\<rparr>, \<lparr>root_real = 0, root_imag = - 1\<rparr>], 0)
   \<and> (\<exists>r. eigLoop [[0, 1], [- 1, 0]] 2 [] = Some r) \<and> (0::nat) < 2"
proof -
  have d: "qrIterate [[0, 1], [- 1, 0]] 2 [] 0
      = ([[0, 1], [- 1, 0]], 0, [\<lparr>root_real = 0, root_imag = 1\<rparr>, \<lparr>root_real = 0, root_imag = - 1\<rparr>], 0)"
    by (subst qrIterate_unfold)
       (simp add: maxIter_def smallSubdiag_def blockDisc_def blockRoots_def)
  from computeEigenvalues_terminates [OF _ d, of "[]" 0]
  have e: "\<exists>r. eigLoop [[0, 1], [- 1, 0]] 2 [] = Some r"
    by simp
  have q: "qrIterate capMatrix 3 [] 0 = (capMatrix, 3, [], maxIter)"
    by (simp add: cap_iterate)
  from computeEigenvalues_terminates [OF _ q, of capMatrix 3]
  have "eigLoop capMatrix 3 []
      = Some ([] @ map (\<lambda>i. \<lparr>root_real = capMatrix ! i ! i, root_imag = 0\<rparr>) [0..<3])"
    by simp
  then have "computeEigenvalues capMatrix 3
      = Some [\<lparr>root_real = 0, root_imag = 0\<rparr>, \<lparr>root_real = 0, root_imag = 0\<rparr>,
              \<lparr>root_real = 0, root_imag = 0\<rparr>]"
    by (simp add: computeEigenvalues_def upt3 capMatrix_def)
  with q d e show ?thesis
    by (simp add: capMatrix_def maxIter_def)
qed

text \<open>
  Claim C10. For a coefficient vector of length \<open>n + 1\<close> with \<open>1 \<le> n\<close>,
  \<^verbatim>\<open>findPolynomialRoots\<close> returns, and returns exactly \<open>n\<close> entries: every way out of the
  inner loop pushes as many eigenvalues as it takes from \<open>m\<close> (one for a real deflation, two
  for a complex pair, \<open>m\<close> at the cap), as \<open>qrIterate_result\<close> and \<open>eigLoop_returns\<close> show.
\<close>

theorem findPolynomialRoots_length:
  assumes "length coeffs = n + 1" and "1 \<le> n"
  shows "\<exists>roots. findPolynomialRoots coeffs = Some roots \<and> length roots = n"
  using assms eigLoop_returns [of "map (companionRow coeffs n) [0..<n]" n "[]"]
  by (simp add: findPolynomialRoots_def computeEigenvalues_def)

theorem findPolynomialRoots_length_witness:
  "length [1, 1, 0 :: real] = 2 + 1 \<and> (1::nat) \<le> 2
   \<and> findPolynomialRoots [1, 1, 0]
       = Some [\<lparr>root_real = 0, root_imag = 1\<rparr>, \<lparr>root_real = 0, root_imag = - 1\<rparr>]"
proof -
  have "qrIterate [[0, 1], [- 1, 0]] 2 [] 0
      = ([[0, 1], [- 1, 0]], 0, [\<lparr>root_real = 0, root_imag = 1\<rparr>, \<lparr>root_real = 0, root_imag = - 1\<rparr>], 0)"
    by (subst qrIterate_unfold)
       (simp add: maxIter_def smallSubdiag_def blockDisc_def blockRoots_def)
  then have "eigLoop [[0, 1], [- 1, 0]] 2 []
      = Some [\<lparr>root_real = 0, root_imag = 1\<rparr>, \<lparr>root_real = 0, root_imag = - 1\<rparr>]"
    by (subst eigLoop.simps, simp add: maxIter_def, subst eigLoop.simps, simp)
  moreover have "map (companionRow [1, 1, 0] 2) [0..<2] = [[0, 1], [- 1, 0]]"
    by (simp add: companionRow_def upt3 numeral_2_eq_2)
  moreover have "findPolynomialRoots [1, 1, 0]
      = computeEigenvalues (map (companionRow [1, 1, 0] 2) [0..<2]) 2"
    by (simp add: findPolynomialRoots_def numeral_2_eq_2)
  ultimately have "findPolynomialRoots [1, 1, 0]
      = Some [\<lparr>root_real = 0, root_imag = 1\<rparr>, \<lparr>root_real = 0, root_imag = - 1\<rparr>]"
    by (simp add: computeEigenvalues_def)
  moreover from findPolynomialRoots_length [of "[1, 1, 0]" 2]
  have "\<exists>roots. findPolynomialRoots [1, 1, 0] = Some roots \<and> length roots = 2"
    by simp
  ultimately show ?thesis
    by simp
qed

section \<open>Properties of \<^verbatim>\<open>levinsonDurbin\<close>\<close>

lemma fold_update_length: "length (fold (\<lambda>j a. a[j := f j]) js a) = length a"
  by (induction js arbitrary: a) simp_all

lemma fold_update_nth_other: "i \<notin> set js \<Longrightarrow> fold (\<lambda>j a. a[j := f j]) js a ! i = a ! i"
  by (induction js arbitrary: a) auto

lemma ldStep_coeffs:
  assumes "ldStep r i (a, aTemp, e) = (a', aTemp', e')"
  shows "length a' = length a" and "a' ! 0 = a ! 0"
  using assms by (auto simp: ldStep_def Let_def fold_update_length fold_update_nth_other)

lemma ldRun_coeffs: "length (ldCoeffs r p k) = p + 1 \<and> ldCoeffs r p k ! 0 = 1"
proof (induction k)
  case 0
  show ?case by (simp add: ldCoeffs_def)
next
  case (Suc k)
  obtain a aTemp e where s: "ldRun r p k = (a, aTemp, e)"
    by (metis prod_cases3)
  obtain a' aTemp' e' where s': "ldStep r (Suc k) (a, aTemp, e) = (a', aTemp', e')"
    by (metis prod_cases3)
  from ldStep_coeffs [OF s'] Suc s s' show ?case
    by (simp add: ldCoeffs_def)
qed

text \<open>
  The loop entered at order \<open>n + 1\<close> in the state after \<open>n\<close> orders stops after some \<open>k\<close>
  orders: the first \<open>k > n\<close> whose error is not positive, or \<open>lpcOrder\<close>.
\<close>

lemma ldLoop_run:
  assumes "n \<le> p"
  shows "\<exists>k. n \<le> k \<and> k \<le> p
    \<and> ldLoop r p (n + 1) (ldRun r p n) = (ldCoeffs r p k, ldError r p k)
    \<and> (\<forall>j. n < j \<and> j < k \<longrightarrow> 0 < ldError r p j)
    \<and> (k < p \<longrightarrow> n < k \<and> ldError r p k \<le> 0)"
  using assms
proof (induction d \<equiv> "p - n" arbitrary: n)
  case 0
  then have "n = p" by simp
  then have "ldLoop r p (n + 1) (ldRun r p n) = (ldCoeffs r p n, ldError r p n)"
    by (subst ldLoop.simps) (simp add: ldCoeffs_def ldError_def split: prod.splits)
  with \<open>n = p\<close> show ?case
    by (intro exI [of _ n]) simp
next
  case (Suc d)
  then have less: "n + 1 \<le> p" by simp
  have run: "ldStep r (n + 1) (ldRun r p n) = ldRun r p (n + 1)"
    by simp
  obtain a aTemp e where s: "ldRun r p (n + 1) = (a, aTemp, e)"
    by (metis prod_cases3)
  then have ae: "a = ldCoeffs r p (n + 1)" "e = ldError r p (n + 1)"
    by (simp_all add: ldCoeffs_def ldError_def)
  show ?case
  proof (cases "e \<le> 0")
    case True
    with less run s have "ldLoop r p (n + 1) (ldRun r p n) = (a, e)"
      by (subst ldLoop.simps) (simp del: ldRun.simps)
    with ae True less show ?thesis
      by (intro exI [of _ "n + 1"]) auto
  next
    case False
    with less run s have "ldLoop r p (n + 1) (ldRun r p n) = ldLoop r p (n + 1 + 1) (ldRun r p (n + 1))"
      by (subst ldLoop.simps) (simp del: ldRun.simps)
    moreover from Suc.hyps(2) less have "d = p - (n + 1)"
      by simp
    from Suc.hyps(1) [OF this less] obtain k where k: "n + 1 \<le> k" "k \<le> p"
      "ldLoop r p (n + 1 + 1) (ldRun r p (n + 1)) = (ldCoeffs r p k, ldError r p k)"
      "\<forall>j. n + 1 < j \<and> j < k \<longrightarrow> 0 < ldError r p j"
      "k < p \<longrightarrow> n + 1 < k \<and> ldError r p k \<le> 0"
      by blast
    moreover have "0 < ldError r p j" if "n < j" "j < k" for j
    proof (cases "j = n + 1")
      case True
      with False ae show ?thesis by simp
    next
      case False
      with that k(4) show ?thesis by simp
    qed
    ultimately show ?thesis
      by (intro exI [of _ k]) auto
  qed
qed

text \<open>
  Claim C5. For every autocorrelation vector \<open>r\<close>, the coefficient vector returned by
  \<^verbatim>\<open>levinsonDurbin\<close> has length \<open>lpcOrder + 1\<close> and first entry 1, and the gain is not
  negative. If \<open>r[0] < 1e-10\<close> the result is the identity coefficients with gain 0. Otherwise
  there is a number \<open>k \<le> lpcOrder\<close> of orders such that the result is the state of the
  recursion after \<open>k\<close> orders, with gain \<open>sqrt (max e 0)\<close>; the error was positive before
  each of these orders, and when \<open>k\<close> is short of \<open>lpcOrder\<close> the recursion stopped because
  the error after order \<open>k\<close> was not positive.
\<close>

theorem levinsonDurbin_model:
  "length (lpc_coeffs (levinsonDurbin an r)) = lpcOrder an + 1
   \<and> lpc_coeffs (levinsonDurbin an r) ! 0 = 1
   \<and> 0 \<le> lpc_gain (levinsonDurbin an r)
   \<and> (if r ! 0 < 1 / 10 ^ 10
       then levinsonDurbin an r = \<lparr>lpc_coeffs = 1 # replicate (lpcOrder an) 0, lpc_gain = 0\<rparr>
       else \<exists>k\<le>lpcOrder an.
              levinsonDurbin an r
                = \<lparr>lpc_coeffs = ldCoeffs r (lpcOrder an) k,
                   lpc_gain = sqrt (max (ldError r (lpcOrder an) k) 0)\<rparr>
              \<and> (\<forall>j<k. 0 < ldError r (lpcOrder an) j)
              \<and> (k < lpcOrder an \<longrightarrow> ldError r (lpcOrder an) k \<le> 0))"
proof (cases "r ! 0 < 1 / 10 ^ 10")
  case True
  then show ?thesis
    by (simp add: levinsonDurbin_def Let_def)
next
  case False
  from ldLoop_run [of 0 "lpcOrder an" r] obtain k where k: "k \<le> lpcOrder an"
    "ldLoop r (lpcOrder an) 1 (ldRun r (lpcOrder an) 0)
       = (ldCoeffs r (lpcOrder an) k, ldError r (lpcOrder an) k)"
    "\<forall>j. 0 < j \<and> j < k \<longrightarrow> 0 < ldError r (lpcOrder an) j"
    "k < lpcOrder an \<longrightarrow> 0 < k \<and> ldError r (lpcOrder an) k \<le> 0"
    by auto
  from False k(2) have res: "levinsonDurbin an r
      = \<lparr>lpc_coeffs = ldCoeffs r (lpcOrder an) k,
         lpc_gain = sqrt (max (ldError r (lpcOrder an) k) 0)\<rparr>"
    by (simp add: levinsonDurbin_def Let_def)
  from False have "0 < ldError r (lpcOrder an) 0"
    by (simp add: ldError_def)
  with k(3) have pos: "\<forall>j<k. 0 < ldError r (lpcOrder an) j"
    by (metis gr0I)
  from False res k(1,4) pos ldRun_coeffs [of r "lpcOrder an" k] show ?thesis
    by auto
qed

lemma ldRun_ones_1: "ldRun (replicate 13 1) 12 1 = ([1,1,0,0,0,0,0,0,0,0,0,0,0], [0,1,0,0,0,0,0,0,0,0,0,0,0], 0)"
  by (simp add: ldStep_def numeral_eq_Suc)

lemma ldError_ones_0: "ldError (replicate 13 1) 12 0 = 1"
  by (simp add: ldError_def)

theorem levinsonDurbin_model_witness:
  "levinsonDurbin (newLPCAnalyzer 8000 256 12) (replicate 13 1)
     = \<lparr>lpc_coeffs = [1, 1, 0, 0, 0, 0, 0, 0, 0, 0, 0, 0, 0], lpc_gain = 0\<rparr>
   \<and> ldError (replicate 13 1) 12 0 = 1 \<and> ldError (replicate 13 1) 12 1 = 0
   \<and> levinsonDurbin (newLPCAnalyzer 8000 256 12) (replicate 13 0)
     = \<lparr>lpc_coeffs = [1, 0, 0, 0, 0, 0, 0, 0, 0, 0, 0, 0, 0], lpc_gain = 0\<rparr>"
proof -
  let ?an = "newLPCAnalyzer 8000 256 12"
  let ?r = "replicate 13 (1::real)"
  have p: "lpcOrder ?an = 12"
    by (simp add: newLPCAnalyzer_def)
  have e1: "ldError ?r 12 1 = 0" and c1: "ldCoeffs ?r 12 1 = [1, 1, 0, 0, 0, 0, 0, 0, 0, 0, 0, 0, 0]"
    using ldRun_ones_1 by (simp_all add: ldError_def ldCoeffs_def del: ldRun.simps)
  from levinsonDurbin_model [of ?an ?r] p obtain k where k: "k \<le> 12"
    "levinsonDurbin ?an ?r = \<lparr>lpc_coeffs = ldCoeffs ?r 12 k, lpc_gain = sqrt (max (ldError ?r 12 k) 0)\<rparr>"
    "\<forall>j<k. 0 < ldError ?r 12 j" "k < 12 \<longrightarrow> ldError ?r 12 k \<le> 0"
    by auto
  have "k = 1"
  proof (rule ccontr)
    assume "k \<noteq> 1"
    then consider "k = 0" | "1 < k"
      by linarith
    then show False
    proof cases
      case 1
      with k(4) ldError_ones_0 show False by simp
    next
      case 2
      with k(3) e1 show False by auto
    qed
  qed
  with k(2) e1 c1 have "levinsonDurbin ?an ?r
      = \<lparr>lpc_coeffs = [1, 1, 0, 0, 0, 0, 0, 0, 0, 0, 0, 0, 0], lpc_gain = 0\<rparr>"
    by simp
  moreover from levinsonDurbin_model [of ?an "replicate 13 0"] p
  have "levinsonDurbin ?an (replicate 13 0)
      = \<lparr>lpc_coeffs = [1, 0, 0, 0, 0, 0, 0, 0, 0, 0, 0, 0, 0], lpc_gain = 0\<rparr>"
    by (simp add: numeral_eq_Suc)
  ultimately show ?thesis
    using ldError_ones_0 e1 by simp
qed

section \<open>Properties of the formant selector\<close>

text \<open>The selection loop is a filter followed by a map.\<close>

lemma selectFormants_fold:
  "fold (\<lambda>root formants.
             if root_imag root \<le> 0.001 then formants
             else
               let freq = (atan2 (root_imag root) (root_real root) * sampleRate an) / (2 * pi);
                   rootMag = sqrt (root_real root * root_real root + root_imag root * root_imag root);
                   magnitude = g / max (1 - rootMag) 0.01;
                   bandwidth = (- ln rootMag * sampleRate an) / pi
               in if freq > 90 \<and> freq < 4000 \<and> bandwidth > 0 \<and> bandwidth < 600 then
                    formants @ [\<lparr>formant_freq = freq, formant_magnitude = magnitude,
                                  formant_bandwidth = bandwidth\<rparr>]
                  else formants)
          roots acc
   = acc @ map (candidate an g) (filter (accepted an) roots)"
proof (induction roots arbitrary: acc)
  case Nil
  show ?case by simp
next
  case (Cons rt roots)
  show ?case
    by (simp only: fold_simps Cons.IH)
       (simp add: Let_def accepted_def candidate_def rootFreq_def rootMag_def
          rootBandwidth_def rootMagnitude_def)
qed

lemma selectFormants_filter:
  "selectFormants an roots g = map (candidate an g) (filter (accepted an) roots)"
  unfolding selectFormants_def by (simp only: selectFormants_fold append_Nil)

lemma insort_key_map:
  "insort_key f (h x) (map h xs) = map h (insort_key (\<lambda>y. f (h y)) x xs)"
  by (induction xs) simp_all

lemma sort_key_map: "sort_key f (map h xs) = map h (sort_key (\<lambda>y. f (h y)) xs)"
  by (induction xs) (simp_all add: insort_key_map)

lemma findPolynomialRoots_returns: "\<exists>roots. findPolynomialRoots cs = Some roots"
  using eigLoop_returns [of "map (companionRow cs (length cs - 1)) [0..<length cs - 1]" "length cs - 1" "[]"]
  by (auto simp: findPolynomialRoots_def computeEigenvalues_def Let_def)

text \<open>The three rounds of the smoothing loop, slot by slot.\<close>

lemma smoothSlot_fold:
  "fold (smoothSlot fl) [0..<3] ([a0, a1, a2], [b0, b1, b2])
   = (map (\<lambda>i. if slotFollows fl i
                then [a0, a1, a2] ! i * (1 - 0.3) + frequencies fl ! i * 0.3
                else [a0, a1, a2] ! i) [0..<3],
      map (\<lambda>i. if slotFollows fl i
                then [b0, b1, b2] ! i * (1 - 0.3) + orZero (magnitudes fl ! i) * 0.3
                else [b0, b1, b2] ! i * 0.8) [0..<3])"
  by (simp add: upt3 smoothSlot_def slotFollows_def Let_def)

lemma accepted_freq_pos: "accepted an rt \<Longrightarrow> 0 < rootFreq an rt"
  by (simp add: accepted_def)

text \<open>
  Claim C6. For every coefficient vector and gain, \<^verbatim>\<open>coeffsToFormants\<close> returns the
  candidates of exactly the roots with imaginary part above 0.001 whose frequency lies in
  (90, 4000) and whose bandwidth lies in (0, 600), in ascending order of frequency (equal
  frequencies in the order of the roots), each with the magnitude
  \<open>gain / max (1 - \<rho>) 0.01\<close>; and in \<^verbatim>\<open>analyze\<close> the slots 0, 1, 2 (F1, F2, F3) follow
  the first, second and third of them.
\<close>

theorem coeffsToFormants_selects:
  "\<exists>roots out. findPolynomialRoots cs = Some roots \<and> coeffsToFormants an cs g = Some out
     \<and> frequencies out = map (rootFreq an) (sort_key (rootFreq an) (filter (accepted an) roots))
     \<and> magnitudes out = map (rootMagnitude g) (sort_key (rootFreq an) (filter (accepted an) roots))
     \<and> sorted (frequencies out)
     \<and> (\<forall>i<3. i < length (frequencies out) \<longrightarrow>
           fst (fold (smoothSlot out) [0..<3] ([a0, a1, a2], [b0, b1, b2])) ! i
             = [a0, a1, a2] ! i * (1 - 0.3) + frequencies out ! i * 0.3)"
proof -
  from findPolynomialRoots_returns obtain roots where roots: "findPolynomialRoots cs = Some roots"
    by blast
  let ?kept = "sort_key (rootFreq an) (filter (accepted an) roots)"
  let ?out = "\<lparr>frequencies = map (rootFreq an) ?kept, magnitudes = map (rootMagnitude g) ?kept\<rparr>"
  have srt: "sort_key formant_freq (selectFormants an roots g) = map (candidate an g) ?kept"
    by (simp add: selectFormants_filter sort_key_map candidate_def)
  have out: "coeffsToFormants an cs g = Some ?out"
    by (simp add: coeffsToFormants_def roots srt Let_def candidate_def comp_def)
  have sorted: "sorted (frequencies ?out)"
    by simp
  have "fst (fold (smoothSlot ?out) [0..<3] ([a0, a1, a2], [b0, b1, b2])) ! i
      = [a0, a1, a2] ! i * (1 - 0.3) + frequencies ?out ! i * 0.3"
    if "i < 3" "i < length (frequencies ?out)" for i
  proof -
    from that(2) have "i < length ?kept"
      by simp
    then have "?kept ! i \<in> set ?kept"
      by (rule nth_mem)
    also have "set ?kept = set (filter (accepted an) roots)"
      by simp
    finally have "accepted an (?kept ! i)"
      by simp
    then have "0 < rootFreq an (?kept ! i)"
      by (rule accepted_freq_pos)
    with that(2) have "slotFollows ?out i"
      by (simp add: slotFollows_def)
    with that(1) show ?thesis
      by (simp add: smoothSlot_fold del: upt_Suc)
  qed
  with roots out sorted show ?thesis
    by (intro exI [of _ roots] exI [of _ ?out]) simp
qed

lemma sqrt_81: "sqrt (81 / 100) = 9 / 10"
  by (rule real_sqrt_unique) (simp_all add: power2_eq_square)

lemma ln_9_10: "ln (9 / 10 :: real) < 0" "- (1 / 9) \<le> ln (9 / 10 :: real)"
proof -
  show "ln (9 / 10 :: real) < 0"
    by (rule ln_less_zero) simp_all
  have "ln (10 / 9 :: real) \<le> 10 / 9 - 1"
    by (rule ln_le_minus_one) simp
  moreover have "ln (10 / 9 :: real) = - ln (9 / 10)"
    using ln_inverse [of "9 / 10 :: real"] by simp
  ultimately show "- (1 / 9) \<le> ln (9 / 10 :: real)"
    by simp
qed

lemma roots_example:
  "findPolynomialRoots [1, 81 / 100, 0]
   = Some [\<lparr>root_real = 0, root_imag = 9 / 10\<rparr>, \<lparr>root_real = 0, root_imag = - (9 / 10)\<rparr>]"
proof -
  have sq: "sqrt (81 / 25) = 9 / 5"
    by (rule real_sqrt_unique) (simp_all add: power2_eq_square)
  have "qrIterate [[0, 1], [- (81 / 100), 0]] 2 [] 0
      = ([[0, 1], [- (81 / 100), 0]], 0,
         [\<lparr>root_real = 0, root_imag = 9 / 10\<rparr>, \<lparr>root_real = 0, root_imag = - (9 / 10)\<rparr>], 0)"
    by (subst qrIterate_unfold)
       (simp add: maxIter_def smallSubdiag_def blockDisc_def blockRoots_def sq)
  then have "eigLoop [[0, 1], [- (81 / 100), 0]] 2 []
      = Some [\<lparr>root_real = 0, root_imag = 9 / 10\<rparr>, \<lparr>root_real = 0, root_imag = - (9 / 10)\<rparr>]"
    by (subst eigLoop.simps, simp add: maxIter_def, subst eigLoop.simps, simp)
  moreover have "map (companionRow [1, 81 / 100, 0] 2) [0..<2] = [[0, 1], [- (81 / 100), 0]]"
    by (simp add: companionRow_def upt3 numeral_2_eq_2)
  moreover have "findPolynomialRoots [1, 81 / 100, 0]
      = computeEigenvalues (map (companionRow [1, 81 / 100, 0] 2) [0..<2]) 2"
    by (simp add: findPolynomialRoots_def numeral_2_eq_2)
  ultimately show ?thesis
    by (simp add: computeEigenvalues_def)
qed

lemma accepted_example:
  "accepted (newLPCAnalyzer 8000 256 12) \<lparr>root_real = 0, root_imag = 9 / 10\<rparr>"
  "\<not> accepted (newLPCAnalyzer 8000 256 12) \<lparr>root_real = 0, root_imag = - (9 / 10)\<rparr>"
  "rootFreq (newLPCAnalyzer 8000 256 12) \<lparr>root_real = 0, root_imag = 9 / 10\<rparr> = 2000"
  "rootMagnitude 1 \<lparr>root_real = 0, root_imag = 9 / 10\<rparr> = 10"
proof -
  let ?an = "newLPCAnalyzer 8000 256 12"
  let ?rt = "\<lparr>root_real = 0, root_imag = 9 / 10\<rparr>"
  have sr: "sampleRate ?an = 8000"
    by (simp add: newLPCAnalyzer_def)
  show f: "rootFreq ?an ?rt = 2000"
    by (simp add: rootFreq_def atan2_def sr)
  have m: "rootMag ?rt = 9 / 10"
    by (simp add: rootMag_def sqrt_81)
  show "rootMagnitude 1 ?rt = 10"
    unfolding rootMagnitude_def m by simp
  have "0 < pi" "2 \<le> pi"
    using pi_ge_two by simp_all
  have bw: "rootBandwidth ?an ?rt = - ln (9 / 10) * 8000 / pi"
    by (simp add: rootBandwidth_def m sr)
  have "0 < - ln (9 / 10 :: real) * 8000 / pi"
    using ln_9_10(1) \<open>0 < pi\<close> by (simp add: field_simps)
  moreover have "- ln (9 / 10 :: real) * 8000 / pi < 600"
  proof -
    have "- ln (9 / 10 :: real) * 8000 \<le> 8000 / 9"
      using ln_9_10(2) by simp
    also have "\<dots> < 600 * pi"
      using \<open>2 \<le> pi\<close> by simp
    finally show ?thesis
      using \<open>0 < pi\<close> by (simp add: field_simps)
  qed
  ultimately show "accepted ?an ?rt"
    by (simp add: accepted_def f bw)
  show "\<not> accepted ?an \<lparr>root_real = 0, root_imag = - (9 / 10)\<rparr>"
    by (simp add: accepted_def)
qed

theorem coeffsToFormants_selects_witness:
  "findPolynomialRoots [1, 81 / 100, 0]
     = Some [\<lparr>root_real = 0, root_imag = 9 / 10\<rparr>, \<lparr>root_real = 0, root_imag = - (9 / 10)\<rparr>]
   \<and> coeffsToFormants (newLPCAnalyzer 8000 256 12) [1, 81 / 100, 0] 1
     = Some \<lparr>frequencies = [2000], magnitudes = [10]\<rparr>
   \<and> fst (fold (smoothSlot \<lparr>frequencies = [2000], magnitudes = [10]\<rparr>) [0..<3]
            ([500, 1500, 2500], [0, 0, 0])) ! 0 = 950"
proof -
  let ?an = "newLPCAnalyzer 8000 256 12"
  from coeffsToFormants_selects [of "[1, 81 / 100, 0]" ?an 1 500 1500 2500 0 0 0]
  obtain roots out where *: "findPolynomialRoots [1, 81 / 100, 0] = Some roots"
    "coeffsToFormants ?an [1, 81 / 100, 0] 1 = Some out"
    "frequencies out = map (rootFreq ?an) (sort_key (rootFreq ?an) (filter (accepted ?an) roots))"
    "magnitudes out = map (rootMagnitude 1) (sort_key (rootFreq ?an) (filter (accepted ?an) roots))"
    "\<forall>i<3. i < length (frequencies out) \<longrightarrow>
       fst (fold (smoothSlot out) [0..<3] ([500, 1500, 2500], [0, 0, 0])) ! i
         = [500, 1500, 2500] ! i * (1 - 0.3) + frequencies out ! i * 0.3"
    by blast
  from *(1) roots_example
  have roots: "roots = [\<lparr>root_real = 0, root_imag = 9 / 10\<rparr>, \<lparr>root_real = 0, root_imag = - (9 / 10)\<rparr>]"
    by simp
  from *(3,4) have "frequencies out = [2000]" "magnitudes out = [10]"
    by (simp_all add: roots accepted_example)
  then have out: "out = \<lparr>frequencies = [2000], magnitudes = [10]\<rparr>"
    by simp
  from *(5) have "fst (fold (smoothSlot out) [0..<3] ([500, 1500, 2500], [0, 0, 0])) ! 0 = 950"
    by (simp add: out del: upt_Suc)
  with *(2) out roots_example show ?thesis
    by simp
qed

section \<open>Properties of the phoneme mapper\<close>

lemma words_hello_world:
  "splitWhitespace (stripPunctuation (toLowerCase ''hello world'')) = [''hello'', ''world'']"
  by (simp add: splitWhitespace_def stripPunctuation_def toLowerCase_def toLowerChar_def
      isWordChar_def isSpaceChar_def)

lemma lookup_hello: "getProperty WORD_PRONUNCIATIONS ''hello'' = Own [''HH'', ''AH'', ''L'', ''OW'']"
  by (simp add: getProperty_def WORD_PRONUNCIATIONS_def)

lemma lookup_world: "getProperty WORD_PRONUNCIATIONS ''world'' = Own [''W'', ''ER'', ''L'', ''D'']"
  by (simp add: getProperty_def WORD_PRONUNCIATIONS_def)

lemma textToPhonemes_hello_world: "textToPhonemes ''hello world'' = Inr helloWorld"
  by (simp add: textToPhonemes_def words_hello_world lookup_hello lookup_world phonemeEntry_def
      getPhonemeDuration_def helloWorld_def)

lemma fold_addTarget_time:
  "snd (fold addTarget phonemes (targets, c)) = c + sum_list (map unit_duration phonemes)"
  by (induction phonemes arbitrary: targets c) (simp_all add: addTarget_def Let_def)

lemma phonemesToTrajectory_duration:
  "traj_duration (phonemesToTrajectory phonemes) = sum_list (map unit_duration phonemes) + 0.06"
  using fold_addTarget_time [of phonemes "[\<lparr>target_time = 0, target_f1 = 400, target_f2 = 1500, target_f3 = 2500,
                       target_amp = 0\<rparr>]" "0.02"]
  by (auto simp: phonemesToTrajectory_def allTargets_def Let_def split: prod.splits)

text \<open>
  Claim C3, as stated, fails on the duration: \<^verbatim>\<open>currentTime\<close> starts at 0.02 and
  \<^verbatim>\<open>totalDuration\<close> adds 0.04 to it, so the total is the sum of the phoneme durations plus
  0.06. For "hello world" the sum is 0.66 and the total 0.72, not 0.70.
\<close>

theorem helloWorld_duration_counterexample:
  "textToPhonemes ''hello world'' = Inr helloWorld
   \<and> sum_list (map unit_duration helloWorld) = 0.66
   \<and> traj_duration (phonemesToTrajectory helloWorld) = 0.72
   \<and> traj_duration (phonemesToTrajectory helloWorld) \<noteq> sum_list (map unit_duration helloWorld) + 0.04"
proof -
  have "sum_list (map unit_duration helloWorld) = 0.66"
    by (simp add: helloWorld_def)
  then show ?thesis
    by (simp add: textToPhonemes_hello_world phonemesToTrajectory_duration)
qed

text \<open>
  Claim C3, amended. \<^verbatim>\<open>textToPhonemes("hello world")\<close> returns exactly nine phoneme units,
  HH AH L OW, the pause between the words, W ER L D, with the durations of their classes
  (vowels 0.10, sonorants 0.07, voiced obstruents 0.05, unvoiced 0.04, the pause 0.06); and
  for every phoneme sequence the total duration of \<^verbatim>\<open>phonemesToTrajectory\<close> is the sum of
  the phoneme durations plus 0.06 (0.02 before the first phoneme, 0.04 after the last).
\<close>

theorem helloWorld_phonemes:
  "textToPhonemes ''hello world'' = Inr helloWorld
   \<and> length helloWorld = 9
   \<and> map unit_phoneme helloWorld = [''HH'', ''AH'', ''L'', ''OW'', ''SIL'', ''W'', ''ER'', ''L'', ''D'']
   \<and> map unit_duration helloWorld = [0.04, 0.10, 0.07, 0.10, 0.06, 0.07, 0.10, 0.07, 0.05]
   \<and> traj_duration (phonemesToTrajectory phonemes) = sum_list (map unit_duration phonemes) + 0.06"
  by (simp add: textToPhonemes_hello_world phonemesToTrajectory_duration) (simp add: helloWorld_def)

theorem helloWorld_phonemes_witness:
  "textToPhonemes ''hello world'' = Inr helloWorld
   \<and> traj_duration (phonemesToTrajectory helloWorld) = 0.72"
proof -
  have "sum_list (map unit_duration helloWorld) = 0.66"
    by (simp add: helloWorld_def)
  with helloWorld_phonemes [of helloWorld] show ?thesis
    by simp
qed

section \<open>Properties of the tracking loop and of the normalisation\<close>

lemma length3: "length xs = 3 \<Longrightarrow> \<exists>a b c. xs = [a, b, c]"
  by (cases xs; cases "tl xs"; cases "tl (tl xs)") auto

lemma fold_max_ge: "a \<le> fold max xs (a::real)"
  by (induction xs arbitrary: a) (auto intro: order_trans [OF max.cobounded2])

lemma fold_max_mem: "x \<in> set xs \<Longrightarrow> x \<le> fold max xs (a::real)"
proof (induction xs arbitrary: a)
  case Nil
  then show ?case by simp
next
  case (Cons y ys)
  show ?case
  proof (cases "x = y")
    case True
    have "y \<le> max y a" by simp
    also have "\<dots> \<le> fold max ys (max y a)" by (rule fold_max_ge)
    finally show ?thesis using True by simp
  next
    case False
    with Cons show ?thesis by simp
  qed
qed

lemma maxMagOf_pos: "0 < maxMagOf pm"
proof -
  have "(0.001::real) \<le> maxMagOf pm"
    unfolding maxMagOf_def by (rule fold_max_ge)
  then show ?thesis by simp
qed

lemma maxMagOf_ge: "m \<in> set pm \<Longrightarrow> m \<le> maxMagOf pm"
  unfolding maxMagOf_def by (rule fold_max_mem)

lemma slot_amp:
  assumes "m \<in> set pm" "0 \<le> m" "0 \<le> w"
  shows "0 \<le> (m / maxMagOf pm) * w" "(m / maxMagOf pm) * w \<le> w"
proof -
  from maxMagOf_pos [of pm] maxMagOf_ge [OF assms(1)] assms(2)
  have q: "0 \<le> m / maxMagOf pm" "m / maxMagOf pm \<le> 1"
    by simp_all
  from q(1) assms(3) show "0 \<le> (m / maxMagOf pm) * w"
    by (rule mult_nonneg_nonneg)
  from q(2) assms(3) have "(m / maxMagOf pm) * w \<le> 1 * w"
    by (rule mult_right_mono)
  then show "(m / maxMagOf pm) * w \<le> w"
    by simp
qed

lemma smoothed_state:
  assumes "trackState (pf, pm)" and "goodCandidates fl"
  shows "trackState (fold (smoothSlot fl) [0..<3] (pf, pm))"
proof -
  from assms(1) obtain a0 a1 a2 b0 b1 b2 where l: "pf = [a0, a1, a2]" "pm = [b0, b1, b2]"
    unfolding trackState_def using length3 [of pf] length3 [of pm] by auto
  with assms(1) have pos: "0 < a0" "0 < a1" "0 < a2" "0 \<le> b0" "0 \<le> b1" "0 \<le> b2"
    by (simp_all add: trackState_def)
  have mag: "0 \<le> orZero (magnitudes fl ! i)" if "slotFollows fl i" for i
  proof -
    from that assms(2) have "i < length (magnitudes fl)"
      by (simp add: slotFollows_def goodCandidates_def)
    with assms(2) have "0 \<le> magnitudes fl ! i"
      by (simp add: goodCandidates_def list_all_length)
    then show ?thesis
      by (simp add: orZero_def)
  qed
  have frq: "0 < frequencies fl ! i" if "slotFollows fl i" for i
    using that by (simp add: slotFollows_def)
  show ?thesis
    unfolding l smoothSlot_fold trackState_def
    using pos mag frq by (simp add: upt3 add_pos_pos add_nonneg_nonneg)
qed

lemma trackFrame_step:
  assumes "trackState prev" and "goodCandidates fl"
  shows "\<exists>prev' p1 p2 p3.
           trackFrame an hop fl (prev, tr)
             = (prev', \<lparr>F1 = F1 tr @ [p1], F2 = F2 tr @ [p2], F3 = F3 tr @ [p3]\<rparr>)
           \<and> trackState prev'
           \<and> framePoint an hop 1 p1 \<and> framePoint an hop 0.7 p2 \<and> framePoint an hop 0.4 p3"
proof -
  obtain pf pm where prev: "prev = (pf, pm)"
    by (cases prev)
  obtain pf' pm' where s: "fold (smoothSlot fl) [0..<3] (pf, pm) = (pf', pm')"
    by (cases "fold (smoothSlot fl) [0..<3] (pf, pm)")
  from smoothed_state [OF assms(1) [unfolded prev] assms(2)] s have st: "trackState (pf', pm')"
    by simp
  then obtain a0 a1 a2 b0 b1 b2 where l: "pf' = [a0, a1, a2]" "pm' = [b0, b1, b2]"
    unfolding trackState_def using length3 [of pf'] length3 [of pm'] by auto
  with st have pos: "0 < a0" "0 < a1" "0 < a2" "0 \<le> b0" "0 \<le> b1" "0 \<le> b2"
    by (simp_all add: trackState_def)
  have mem: "b0 \<in> set pm'" "b1 \<in> set pm'" "b2 \<in> set pm'"
    by (simp_all add: l)
  let ?p1 = "\<lparr>point_t = hopTime an hop, point_freq = a0, point_amp = (b0 / maxMagOf pm') * 1.0\<rparr>"
  let ?p2 = "\<lparr>point_t = hopTime an hop, point_freq = a1, point_amp = (b1 / maxMagOf pm') * 0.7\<rparr>"
  let ?p3 = "\<lparr>point_t = hopTime an hop, point_freq = a2, point_amp = (b2 / maxMagOf pm') * 0.4\<rparr>"
  have "trackFrame an hop fl (prev, tr)
      = ((pf', pm'), \<lparr>F1 = F1 tr @ [?p1], F2 = F2 tr @ [?p2], F3 = F3 tr @ [?p3]\<rparr>)"
    unfolding trackFrame_def prev by (simp add: s Let_def hopTime_def del: upt_Suc) (simp add: l)
  moreover have "framePoint an hop 1 ?p1"
    using slot_amp [OF mem(1) pos(4), of 1] pos(1) by (simp add: framePoint_def)
  moreover have "framePoint an hop 0.7 ?p2"
    using slot_amp [OF mem(2) pos(5), of "0.7"] pos(2) by (simp add: framePoint_def)
  moreover have "framePoint an hop 0.4 ?p3"
    using slot_amp [OF mem(3) pos(6), of "0.4"] pos(3) by (simp add: framePoint_def)
  ultimately show ?thesis
    using st by blast
qed

lemma trackOf_snoc:
  "trackOf an w hops ps \<Longrightarrow> framePoint an hop w p \<Longrightarrow> trackOf an w (hops @ [hop]) (ps @ [p])"
  by (simp add: trackOf_def framePoint_def)

lemma track_fold:
  assumes "trackState prev" and "list_all goodCandidates (map snd frames)"
    and "trackOf an 1 hops (F1 tr)" "trackOf an 0.7 hops (F2 tr)" "trackOf an 0.4 hops (F3 tr)"
  shows "\<exists>prev' tr'.
           fold (\<lambda>(hop, fl). trackFrame an hop fl) frames (prev, tr) = (prev', tr')
           \<and> trackState prev'
           \<and> trackOf an 1 (hops @ map fst frames) (F1 tr')
           \<and> trackOf an 0.7 (hops @ map fst frames) (F2 tr')
           \<and> trackOf an 0.4 (hops @ map fst frames) (F3 tr')"
  using assms
proof (induction frames arbitrary: prev tr hops)
  case Nil
  then show ?case by simp
next
  case (Cons frame frames)
  obtain hop fl where frame: "frame = (hop, fl)"
    by (cases frame)
  from Cons.prems(2) frame have good: "goodCandidates fl" "list_all goodCandidates (map snd frames)"
    by simp_all
  from trackFrame_step [OF Cons.prems(1) good(1), of an hop tr]
  obtain prev1 p1 p2 p3 where step: "trackFrame an hop fl (prev, tr)
        = (prev1, \<lparr>F1 = F1 tr @ [p1], F2 = F2 tr @ [p2], F3 = F3 tr @ [p3]\<rparr>)"
    "trackState prev1" "framePoint an hop 1 p1" "framePoint an hop 0.7 p2" "framePoint an hop 0.4 p3"
    by blast
  let ?tr1 = "\<lparr>F1 = F1 tr @ [p1], F2 = F2 tr @ [p2], F3 = F3 tr @ [p3]\<rparr>"
  have t: "trackOf an 1 (hops @ [hop]) (F1 ?tr1)" "trackOf an 0.7 (hops @ [hop]) (F2 ?tr1)"
    "trackOf an 0.4 (hops @ [hop]) (F3 ?tr1)"
    using Cons.prems(3-5) step(3-5) by (simp_all add: trackOf_snoc)
  from Cons.IH [OF step(2) good(2) t] frame step(1) show ?case
    by simp
qed

lemma trackAll_tracks:
  assumes "list_all goodCandidates (map snd frames)"
  shows "trackOf an 1 (map fst frames) (F1 (trackAll an frames))"
    and "trackOf an 0.7 (map fst frames) (F2 (trackAll an frames))"
    and "trackOf an 0.4 (map fst frames) (F3 (trackAll an frames))"
proof -
  have init: "trackState ([500, 1500, 2500], [0, 0, 0])"
    by (simp add: trackState_def)
  have e: "trackOf an w [] (F1 \<lparr>F1 = [], F2 = [], F3 = []\<rparr>)"
    "trackOf an w [] (F2 \<lparr>F1 = [], F2 = [], F3 = []\<rparr>)"
    "trackOf an w [] (F3 \<lparr>F1 = [], F2 = [], F3 = []\<rparr>)" for w
    by (simp_all add: trackOf_def)
  from track_fold [OF init assms e(1) e(2) e(3)]
  show "trackOf an 1 (map fst frames) (F1 (trackAll an frames))"
    and "trackOf an 0.7 (map fst frames) (F2 (trackAll an frames))"
    and "trackOf an 0.4 (map fst frames) (F3 (trackAll an frames))"
    by (auto simp: trackAll_def)
qed

lemma fold_max_amp:
  "fold (\<lambda>point globalMax. max globalMax (point_amp point)) ps g = fold max (map point_amp ps) g"
  by (induction ps arbitrary: g) (simp_all add: max.commute)

lemma globalMaxOf_fold: "globalMaxOf tr = fold max (map point_amp (allPoints tr)) 0"
  by (simp add: globalMaxOf_def allPoints_def fold_max_amp)

lemma fold_max_in: "fold max xs (a::real) \<in> insert a (set xs)"
proof (induction xs arbitrary: a)
  case Nil
  show ?case by simp
next
  case (Cons x xs)
  from Cons [of "max x a"] show ?case
    by (auto simp: max_def split: if_splits)
qed

lemma fold_max_le: "a \<le> b \<Longrightarrow> \<forall>x\<in>set xs. x \<le> b \<Longrightarrow> fold max xs (a::real) \<le> b"
  using fold_max_in [of xs a] by auto

lemma globalMaxOf_ge: "p \<in> set (allPoints tr) \<Longrightarrow> point_amp p \<le> globalMaxOf tr"
  unfolding globalMaxOf_fold by (rule fold_max_mem) simp

lemma globalMaxOf_nonneg: "0 \<le> globalMaxOf tr"
  unfolding globalMaxOf_fold by (rule fold_max_ge)

lemma normAmp_bounds:
  assumes "0 < G" "0 \<le> a" "a \<le> G" "0 \<le> w"
  shows "0 \<le> normAmp G w a" and "normAmp G w a \<le> w"
proof -
  from assms have q: "0 \<le> a / G" "a / G \<le> 1"
    by simp_all
  have "(a / G) powr 0.6 \<le> 1 powr 0.6"
    by (rule powr_mono2) (use q in simp_all)
  then have le: "(a / G) powr 0.6 \<le> 1"
    by simp
  have ge: "0 \<le> (a / G) powr 0.6"
    by simp
  from ge assms(4) show "0 \<le> normAmp G w a"
    unfolding normAmp_def by (rule mult_nonneg_nonneg)
  from le assms(4) have "(a / G) powr 0.6 * w \<le> 1 * w"
    by (rule mult_right_mono)
  then show "normAmp G w a \<le> w"
    by (simp add: normAmp_def)
qed

lemma normAmp_full:
  assumes "0 < G" "0 \<le> a" "a \<le> G" "0 < w"
  shows "normAmp G w a = w \<longleftrightarrow> a = G"
proof
  assume "a = G"
  with assms(1) show "normAmp G w a = w"
    by (simp add: normAmp_def)
next
  assume eq: "normAmp G w a = w"
  show "a = G"
  proof (rule ccontr)
    assume "a \<noteq> G"
    with assms have "a / G < 1" "0 \<le> a / G"
      by simp_all
    then have "(a / G) powr 0.6 < 1 powr 0.6"
      by (intro powr_less_mono2) simp_all
    then have "(a / G) powr 0.6 < 1"
      by simp
    with assms(4) have "(a / G) powr 0.6 * w < 1 * w"
      by (intro mult_strict_right_mono)
    with eq assms(4) show False
      by (auto simp: normAmp_def)
  qed
qed

lemma normalizeTrack_map:
  "normalizeTrack G w ps = map (\<lambda>p. p\<lparr>point_amp := normAmp G w (point_amp p)\<rparr>) ps"
  by (simp add: normalizeTrack_def normAmp_def Let_def)

lemma normalizeAmplitudes_tracks:
  assumes "0 < globalMaxOf raw"
  shows "F1 (normalizeAmplitudes raw) = normalizeTrack (globalMaxOf raw) 1 (F1 raw)"
    and "F2 (normalizeAmplitudes raw) = normalizeTrack (globalMaxOf raw) 0.7 (F2 raw)"
    and "F3 (normalizeAmplitudes raw) = normalizeTrack (globalMaxOf raw) 0.4 (F3 raw)"
  using assms by (simp_all add: normalizeAmplitudes_def Let_def)

section \<open>The maximum after normalisation\<close>

lemma trackOf_amps:
  "trackOf an w hops ps \<Longrightarrow> p \<in> set ps \<Longrightarrow> 0 \<le> point_amp p \<and> point_amp p \<le> w"
  by (auto simp: trackOf_def list_all_iff)

lemma normalized_track_le:
  assumes G: "0 < G" and w: "0 \<le> w"
    and ps: "\<forall>p\<in>set ps. 0 \<le> point_amp p \<and> point_amp p \<le> G"
  shows "\<forall>q\<in>set (normalizeTrack G w ps). 0 \<le> point_amp q \<and> point_amp q \<le> w"
  using normAmp_bounds [OF G _ _ w] ps by (auto simp: normalizeTrack_map)

text \<open>
  Claim C1, amended. For every utterance, given by the candidates of its frames, that is
  not silent (the largest amplitude before \<^verbatim>\<open>normalizeAmplitudes\<close> is positive): after the
  normalisation no point exceeds its tier weight (1.0, 0.7, 0.4); the largest amplitude of
  all points is at most 1.0, and it is 1.0 exactly when a point of F1 carries the largest
  amplitude before the normalisation; every such point of F1 ends at exactly 1.0.
\<close>

theorem normalizeAmplitudes_maximum:
  assumes "list_all goodCandidates (map snd frames)"
    and "0 < globalMaxOf (trackAll an frames)"
  shows "list_all (\<lambda>p. point_amp p \<le> 1.0) (F1 (normalizeAmplitudes (trackAll an frames)))
    \<and> list_all (\<lambda>p. point_amp p \<le> 0.7) (F2 (normalizeAmplitudes (trackAll an frames)))
    \<and> list_all (\<lambda>p. point_amp p \<le> 0.4) (F3 (normalizeAmplitudes (trackAll an frames)))
    \<and> globalMaxOf (normalizeAmplitudes (trackAll an frames)) \<le> 1.0
    \<and> (globalMaxOf (normalizeAmplitudes (trackAll an frames)) = 1.0
         \<longleftrightarrow> (\<exists>p\<in>set (F1 (trackAll an frames)). point_amp p = globalMaxOf (trackAll an frames)))
    \<and> (\<forall>i<length (F1 (trackAll an frames)).
           point_amp (F1 (trackAll an frames) ! i) = globalMaxOf (trackAll an frames) \<longrightarrow>
           point_amp (F1 (normalizeAmplitudes (trackAll an frames)) ! i) = 1.0)"
proof -
  let ?raw = "trackAll an frames"
  let ?G = "globalMaxOf ?raw"
  let ?tr = "normalizeAmplitudes ?raw"
  note G = assms(2)
  note tracks = trackAll_tracks [OF assms(1), of an]
  note norm = normalizeAmplitudes_tracks [OF G]
  have raw: "0 \<le> point_amp p \<and> point_amp p \<le> ?G" if "p \<in> set (allPoints ?raw)" for p
  proof -
    from that tracks have "0 \<le> point_amp p"
      by (auto simp: allPoints_def dest: trackOf_amps)
    with globalMaxOf_ge [OF that] show ?thesis
      by simp
  qed
  then have raw1: "\<forall>p\<in>set (F1 ?raw). 0 \<le> point_amp p \<and> point_amp p \<le> ?G"
    and raw2: "\<forall>p\<in>set (F2 ?raw). 0 \<le> point_amp p \<and> point_amp p \<le> ?G"
    and raw3: "\<forall>p\<in>set (F3 ?raw). 0 \<le> point_amp p \<and> point_amp p \<le> ?G"
    by (simp_all add: allPoints_def)
  have b1: "\<forall>q\<in>set (F1 ?tr). 0 \<le> point_amp q \<and> point_amp q \<le> 1"
    unfolding norm by (rule normalized_track_le [OF G _ raw1]) simp
  have b2: "\<forall>q\<in>set (F2 ?tr). 0 \<le> point_amp q \<and> point_amp q \<le> 0.7"
    unfolding norm by (rule normalized_track_le [OF G _ raw2]) simp
  have b3: "\<forall>q\<in>set (F3 ?tr). 0 \<le> point_amp q \<and> point_amp q \<le> 0.4"
    unfolding norm by (rule normalized_track_le [OF G _ raw3]) simp
  have le1: "globalMaxOf ?tr \<le> 1"
    unfolding globalMaxOf_fold
  proof (rule fold_max_le)
    show "(0::real) \<le> 1" by simp
    show "\<forall>x\<in>set (map point_amp (allPoints ?tr)). x \<le> 1"
      using b1 b2 b3 by (fastforce simp: allPoints_def)
  qed
  have at: "point_amp (F1 ?tr ! i) = 1"
    if "i < length (F1 ?raw)" "point_amp (F1 ?raw ! i) = ?G" for i
    using that G by (simp add: norm normalizeTrack_map normAmp_def)
  have iff: "globalMaxOf ?tr = 1 \<longleftrightarrow> (\<exists>p\<in>set (F1 ?raw). point_amp p = ?G)"
  proof
    assume "\<exists>p\<in>set (F1 ?raw). point_amp p = ?G"
    then obtain i where i: "i < length (F1 ?raw)" "point_amp (F1 ?raw ! i) = ?G"
      by (auto simp: in_set_conv_nth)
    from i(1) have "F1 ?tr ! i \<in> set (allPoints ?tr)"
      by (simp add: allPoints_def norm normalizeTrack_map)
    from globalMaxOf_ge [OF this] at [OF i] have "1 \<le> globalMaxOf ?tr"
      by simp
    with le1 show "globalMaxOf ?tr = 1"
      by simp
  next
    assume one: "globalMaxOf ?tr = 1"
    from fold_max_in [of "map point_amp (allPoints ?tr)" 0] one
    obtain q where q: "q \<in> set (allPoints ?tr)" "point_amp q = 1"
      by (auto simp: globalMaxOf_fold)
    from q b2 b3 have "q \<in> set (F1 ?tr)"
      by (fastforce simp: allPoints_def)
    then obtain p where p: "p \<in> set (F1 ?raw)" "point_amp q = normAmp ?G 1 (point_amp p)"
      by (auto simp: norm normalizeTrack_map)
    from raw1 p(1) have "0 \<le> point_amp p" "point_amp p \<le> ?G"
      by simp_all
    from normAmp_full [OF G this, of 1] p(2) q(2) have "point_amp p = ?G"
      by simp
    with p(1) show "\<exists>p\<in>set (F1 ?raw). point_amp p = ?G"
      by blast
  qed
  from b1 b2 b3 le1 iff at show ?thesis
    by (simp add: list_all_iff)
qed

lemma smooth_loudF1:
  "fold (smoothSlot \<lparr>frequencies = [2000], magnitudes = [10]\<rparr>) [0..<3]
     ([500, 1500, 2500], [0, 0, 0]) = ([950, 1500, 2500], [3, 0, 0])"
  unfolding smoothSlot_fold by (simp add: slotFollows_def orZero_def upt3)

lemma smooth_loudF2:
  "fold (smoothSlot \<lparr>frequencies = [1000, 2000], magnitudes = [10, 100]\<rparr>) [0..<3]
     ([500, 1500, 2500], [0, 0, 0]) = ([650, 1650, 2500], [3, 30, 0])"
  unfolding smoothSlot_fold by (simp add: slotFollows_def orZero_def upt3)

lemma trackAll_loudF1:
  "trackAll (newLPCAnalyzer 8000 256 12) loudF1Frames
   = \<lparr>F1 = [\<lparr>point_t = 0, point_freq = 950, point_amp = 1\<rparr>],
      F2 = [\<lparr>point_t = 0, point_freq = 1500, point_amp = 0\<rparr>],
      F3 = [\<lparr>point_t = 0, point_freq = 2500, point_amp = 0\<rparr>]\<rparr>"
  by (simp add: trackAll_def loudF1Frames_def trackFrame_def smooth_loudF1
      maxMagOf_def newLPCAnalyzer_def Let_def del: upt_Suc)

lemma trackAll_loudF2:
  "trackAll (newLPCAnalyzer 8000 256 12) loudF2Frames
   = \<lparr>F1 = [\<lparr>point_t = 0, point_freq = 650, point_amp = 1 / 10\<rparr>],
      F2 = [\<lparr>point_t = 0, point_freq = 1650, point_amp = 7 / 10\<rparr>],
      F3 = [\<lparr>point_t = 0, point_freq = 2500, point_amp = 0\<rparr>]\<rparr>"
  by (simp add: trackAll_def loudF2Frames_def trackFrame_def smooth_loudF2
      maxMagOf_def newLPCAnalyzer_def Let_def del: upt_Suc)

text \<open>
  Claim C1, as stated, fails when the largest amplitude before the normalisation belongs to
  F2: the frame weights it by 0.7, the normalisation divides by that maximum and weights by
  0.7 again. In the one-frame utterance \<open>loudF2Frames\<close> the points end at
  \<open>(1/7) powr 0.6\<close>, 0.7 and 0, all below 1.0.
\<close>

theorem normalizeAmplitudes_maximum_counterexample:
  "list_all goodCandidates (map snd loudF2Frames)
   \<and> globalMaxOf (trackAll (newLPCAnalyzer 8000 256 12) loudF2Frames) = 0.7
   \<and> globalMaxOf (normalizeAmplitudes (trackAll (newLPCAnalyzer 8000 256 12) loudF2Frames)) < 1.0"
proof -
  let ?raw = "\<lparr>F1 = [\<lparr>point_t = 0, point_freq = 650, point_amp = 1 / 10\<rparr>],
      F2 = [\<lparr>point_t = 0, point_freq = 1650, point_amp = 7 / 10\<rparr>],
      F3 = [\<lparr>point_t = 0, point_freq = 2500, point_amp = 0\<rparr>]\<rparr>"
  have good: "list_all goodCandidates (map snd loudF2Frames)"
    by (simp add: loudF2Frames_def goodCandidates_def)
  have G: "globalMaxOf ?raw = 7 / 10"
    by (simp add: globalMaxOf_def)
  have "(1 / 7 :: real) powr 0.6 < 1 powr 0.6"
    by (intro powr_less_mono2) simp_all
  then have x: "(1 / 7 :: real) powr (3 / 5) < 1"
    by simp
  have "normalizeAmplitudes ?raw
      = \<lparr>F1 = [\<lparr>point_t = 0, point_freq = 650, point_amp = (1 / 7) powr (3 / 5)\<rparr>],
         F2 = [\<lparr>point_t = 0, point_freq = 1650, point_amp = 7 / 10\<rparr>],
         F3 = [\<lparr>point_t = 0, point_freq = 2500, point_amp = 0\<rparr>]\<rparr>"
    unfolding normalizeAmplitudes_def Let_def G by (simp add: normalizeTrack_def)
  then have "globalMaxOf (normalizeAmplitudes ?raw) < 1"
    using x by (simp add: globalMaxOf_def)
  with good G show ?thesis
    by (simp add: trackAll_loudF2)
qed

theorem normalizeAmplitudes_maximum_witness:
  "list_all goodCandidates (map snd loudF1Frames)
   \<and> 0 < globalMaxOf (trackAll (newLPCAnalyzer 8000 256 12) loudF1Frames)
   \<and> point_amp (F1 (trackAll (newLPCAnalyzer 8000 256 12) loudF1Frames) ! 0)
       = globalMaxOf (trackAll (newLPCAnalyzer 8000 256 12) loudF1Frames)
   \<and> globalMaxOf (normalizeAmplitudes (trackAll (newLPCAnalyzer 8000 256 12) loudF1Frames)) = 1.0
   \<and> point_amp (F1 (normalizeAmplitudes (trackAll (newLPCAnalyzer 8000 256 12) loudF1Frames)) ! 0) = 1.0"
proof -
  let ?raw = "trackAll (newLPCAnalyzer 8000 256 12) loudF1Frames"
  have good: "list_all goodCandidates (map snd loudF1Frames)"
    by (simp add: loudF1Frames_def goodCandidates_def)
  have G: "globalMaxOf ?raw = 1"
    by (simp add: trackAll_loudF1 globalMaxOf_def)
  then have pos: "0 < globalMaxOf ?raw"
    by simp
  have at: "point_amp (F1 ?raw ! 0) = globalMaxOf ?raw"
    by (simp add: G) (simp add: trackAll_loudF1)
  have len: "0 < length (F1 ?raw)"
    by (simp add: trackAll_loudF1)
  from at len have ex: "\<exists>p\<in>set (F1 ?raw). point_amp p = globalMaxOf ?raw"
    by (metis nth_mem)
  from normalizeAmplitudes_maximum [OF good pos] ex at len
  have "globalMaxOf (normalizeAmplitudes ?raw) = 1.0"
    and "point_amp (F1 (normalizeAmplitudes ?raw) ! 0) = 1.0"
    by blast+
  with good pos at show ?thesis
    by simp
qed

section \<open>The analysis as the tracking of its frames\<close>

lemma rootMagnitude_nonneg: "0 \<le> g \<Longrightarrow> 0 \<le> rootMagnitude g rt"
  by (simp add: rootMagnitude_def)

lemma coeffsToFormants_good:
  assumes "0 \<le> g"
  shows "\<exists>fl. coeffsToFormants an cs g = Some fl \<and> goodCandidates fl"
proof -
  from findPolynomialRoots_returns obtain roots where roots: "findPolynomialRoots cs = Some roots"
    by blast
  let ?kept = "sort_key (rootFreq an) (filter (accepted an) roots)"
  let ?out = "\<lparr>frequencies = map (rootFreq an) ?kept, magnitudes = map (rootMagnitude g) ?kept\<rparr>"
  have srt: "sort_key formant_freq (selectFormants an roots g) = map (candidate an g) ?kept"
    by (simp add: selectFormants_filter sort_key_map candidate_def)
  have "coeffsToFormants an cs g = Some ?out"
    by (simp add: coeffsToFormants_def roots srt Let_def candidate_def comp_def)
  moreover have "goodCandidates ?out"
    using assms by (simp add: goodCandidates_def list_all_iff rootMagnitude_nonneg)
  ultimately show ?thesis
    by blast
qed

lemma levinsonDurbin_gain_nonneg: "0 \<le> lpc_gain (levinsonDurbin an r)"
  by (simp add: levinsonDurbin_def Let_def split: prod.splits)

lemma frameFormants_good: "\<exists>fl. frameFormants an paddedAudio hop = Some fl \<and> goodCandidates fl"
  unfolding frameFormants_def Let_def
  by (rule coeffsToFormants_good) (rule levinsonDurbin_gain_nonneg)

lemma frameLoop_tracking:
  "frameLoop an paddedAudio hops s
   = Some (fold (\<lambda>(hop, fl). trackFrame an hop fl)
             (map (\<lambda>hop. (hop, the (frameFormants an paddedAudio hop))) hops) s)"
proof (induction hops arbitrary: s)
  case Nil
  show ?case by simp
next
  case (Cons hop hops)
  from frameFormants_good [of an paddedAudio hop] obtain fl
    where "frameFormants an paddedAudio hop = Some fl"
    by blast
  with Cons show ?case
    by simp
qed

lemma analyzeFrames_tracking:
  "analyzeFrames an audioBuffer inputSampleRate
   = Some (trackAll (an\<lparr>sampleRate := 8000\<rparr>) (analysisFrames an audioBuffer inputSampleRate))"
  by (simp add: analyzeFrames_def analysisFrames_def trackAll_def frameLoop_tracking Let_def)

lemma analysisFrames_good:
  "list_all goodCandidates (map snd (analysisFrames an audioBuffer inputSampleRate))"
proof -
  have "goodCandidates (the (frameFormants a p hop))" for a p hop
    using frameFormants_good [of a p hop] by auto
  then show ?thesis
    by (simp add: analysisFrames_def Let_def list_all_iff)
qed

lemma analysisFrames_hops:
  "map fst (analysisFrames an audioBuffer inputSampleRate)
   = [0..<length (resample audioBuffer inputSampleRate 8000) div hopSize an]"
proof -
  have "length (fold (\<lambda>i result. result[i := f i result]) js xs) = length xs" for f js and xs :: "real list"
    by (induction js arbitrary: xs) simp_all
  then have "length (preEmphasis audio c) = length audio" for audio c
    by (simp add: preEmphasis_def Let_def)
  then show ?thesis
    by (simp add: analysisFrames_def Let_def comp_def map_idI)
qed

section \<open>Well-formed trajectories\<close>

lemma normalizeTrack_times:
  "map point_t (normalizeTrack G w ps) = map point_t ps"
  "length (normalizeTrack G w ps) = length ps"
  by (simp_all add: normalizeTrack_map comp_def)

lemma normalizeTrack_points:
  assumes "0 < G" "0 \<le> w" "w \<le> 1"
    and "list_all (\<lambda>p. 0 < point_freq p \<and> 0 \<le> point_amp p \<and> point_amp p \<le> G) ps"
  shows "list_all (\<lambda>p. 0 \<le> point_freq p \<and> 0 \<le> point_amp p \<and> point_amp p \<le> 1)
           (normalizeTrack G w ps)"
proof -
  have "0 \<le> normAmp G w a \<and> normAmp G w a \<le> 1" if "0 \<le> a" "a \<le> G" for a
    using normAmp_bounds [OF assms(1) that assms(2)] assms(3) by simp
  with assms(4) show ?thesis
    by (auto simp: normalizeTrack_map list_all_iff)
qed

lemma hopTime_sorted:
  assumes "0 < hopSize an" "0 < sampleRate an"
  shows "sorted_wrt (<) (map (hopTime an) [0..<n])"
proof -
  have "hopTime an i < hopTime an j" if "i < j" for i j
    using that assms by (simp add: hopTime_def divide_strict_right_mono)
  then show ?thesis
    by (simp add: sorted_wrt_map sorted_wrt_iff_nth_less)
qed

lemma tracks_wellFormed:
  assumes t1: "trackOf an 1 [0..<n] (F1 raw)" and t2: "trackOf an 0.7 [0..<n] (F2 raw)"
    and t3: "trackOf an 0.4 [0..<n] (F3 raw)"
    and an: "0 < hopSize an" "0 < sampleRate an"
  shows "wellFormed (normalizeAmplitudes raw) \<and> length (F1 (normalizeAmplitudes raw)) = n"
proof -
  from t1 t2 t3 have times: "map point_t (F1 raw) = map (hopTime an) [0..<n]"
    "map point_t (F2 raw) = map (hopTime an) [0..<n]"
    "map point_t (F3 raw) = map (hopTime an) [0..<n]"
    by (simp_all add: trackOf_def)
  from times have len: "length (F1 raw) = n" "length (F2 raw) = n" "length (F3 raw) = n"
    by (metis length_map length_upt diff_zero)+
  note srt = hopTime_sorted [OF an, of n]
  show ?thesis
  proof (cases "0 < globalMaxOf raw")
    case False
    then have same: "normalizeAmplitudes raw = raw"
      by (simp add: normalizeAmplitudes_def Let_def)
    from t1 t2 t3 have "list_all (\<lambda>p. 0 \<le> point_freq p \<and> 0 \<le> point_amp p \<and> point_amp p \<le> 1)
        (allPoints raw)"
      by (auto simp: trackOf_def allPoints_def list_all_iff)
    with times len srt show ?thesis
      by (simp add: same wellFormed_def)
  next
    case True
    note norm = normalizeAmplitudes_tracks [OF True]
    have pts: "list_all (\<lambda>p. 0 < point_freq p \<and> 0 \<le> point_amp p \<and> point_amp p \<le> globalMaxOf raw) ps"
      if "trackOf an w [0..<n] ps" "set ps \<subseteq> set (allPoints raw)" for w ps
      using that globalMaxOf_ge [of _ raw] by (auto simp: trackOf_def list_all_iff)
    have "list_all (\<lambda>p. 0 \<le> point_freq p \<and> 0 \<le> point_amp p \<and> point_amp p \<le> 1)
        (normalizeTrack (globalMaxOf raw) 1 (F1 raw))"
      by (rule normalizeTrack_points [OF True _ _ pts [OF t1]]) (auto simp: allPoints_def)
    moreover have "list_all (\<lambda>p. 0 \<le> point_freq p \<and> 0 \<le> point_amp p \<and> point_amp p \<le> 1)
        (normalizeTrack (globalMaxOf raw) 0.7 (F2 raw))"
      by (rule normalizeTrack_points [OF True _ _ pts [OF t2]]) (auto simp: allPoints_def)
    moreover have "list_all (\<lambda>p. 0 \<le> point_freq p \<and> 0 \<le> point_amp p \<and> point_amp p \<le> 1)
        (normalizeTrack (globalMaxOf raw) 0.4 (F3 raw))"
      by (rule normalizeTrack_points [OF True _ _ pts [OF t3]]) (auto simp: allPoints_def)
    ultimately show ?thesis
      using times len srt by (simp add: wellFormed_def norm normalizeTrack_times allPoints_def)
  qed
qed

lemma analyze_wellFormed:
  assumes "0 < hopSize an"
  shows "\<exists>tr. analyze an audioBuffer inputSampleRate = Some tr \<and> wellFormed tr
    \<and> length (F1 tr) = length (resample audioBuffer inputSampleRate 8000) div hopSize an"
proof -
  let ?an = "an\<lparr>sampleRate := 8000\<rparr>"
  let ?frames = "analysisFrames an audioBuffer inputSampleRate"
  let ?n = "length (resample audioBuffer inputSampleRate 8000) div hopSize an"
  note tracks = trackAll_tracks [OF analysisFrames_good [of an audioBuffer inputSampleRate], of ?an]
  have "wellFormed (normalizeAmplitudes (trackAll ?an ?frames))
      \<and> length (F1 (normalizeAmplitudes (trackAll ?an ?frames))) = ?n"
    by (rule tracks_wellFormed [of ?an])
       (use tracks assms in \<open>simp_all add: analysisFrames_hops\<close>)
  then show ?thesis
    by (simp add: analyze_def analyzeFrames_tracking)
qed

lemma PHONEME_FORMANTS_nonneg:
  "list_all (\<lambda>(k, f). 0 \<le> f ! 0 \<and> 0 \<le> f ! 1 \<and> 0 \<le> f ! 2) PHONEME_FORMANTS"
  by (simp add: PHONEME_FORMANTS_def)

lemma getFormants_nonneg:
  "0 \<le> pf_f1 (getFormants ph) \<and> 0 \<le> pf_f2 (getFormants ph) \<and> 0 \<le> pf_f3 (getFormants ph)"
proof -
  have ah: "map_of PHONEME_FORMANTS ''AH'' = Some [640, 1190, 2390]"
    by (simp add: PHONEME_FORMANTS_def)
  show ?thesis
  proof (cases "map_of PHONEME_FORMANTS ph")
    case None
    then show ?thesis
      by (simp add: getFormants_def ah)
  next
    case (Some f)
    then have "(ph, f) \<in> set PHONEME_FORMANTS"
      by (rule map_of_SomeD)
    with PHONEME_FORMANTS_nonneg have "0 \<le> f ! 0 \<and> 0 \<le> f ! 1 \<and> 0 \<le> f ! 2"
      by (auto simp: list_all_iff)
    with Some show ?thesis
      by (simp add: getFormants_def)
  qed
qed

lemma addTarget_good:
  assumes "list_all goodTarget targets"
  shows "list_all goodTarget (fst (addTarget u (targets, c)))"
  using assms getFormants_nonneg [of "unit_phoneme u"]
  by (simp add: addTarget_def Let_def goodTarget_def orDefault_def)

lemma fold_addTarget_good:
  "list_all goodTarget targets \<Longrightarrow> list_all goodTarget (fst (fold addTarget phonemes (targets, c)))"
proof (induction phonemes arbitrary: targets c)
  case Nil
  then show ?case by simp
next
  case (Cons u phonemes)
  obtain targets' c' where s: "addTarget u (targets, c) = (targets', c')"
    by (cases "addTarget u (targets, c)")
  from addTarget_good [OF Cons.prems, of u c] s have "list_all goodTarget targets'"
    by simp
  from Cons.IH [OF this, of c'] s show ?case
    by simp
qed

lemma allTargets_good:
  "list_all goodTarget (fst (allTargets phonemes)) \<and> fst (allTargets phonemes) \<noteq> []"
proof -
  let ?t0 = "\<lparr>target_time = 0, target_f1 = 400, target_f2 = 1500, target_f3 = 2500, target_amp = 0\<rparr>"
  have "list_all goodTarget [?t0]"
    by (simp add: goodTarget_def)
  from fold_addTarget_good [OF this, of phonemes "0.02"] show ?thesis
    by (auto simp: allTargets_def Let_def goodTarget_def split: prod.splits)
qed

lemma findBracket_mem:
  "findBracket targets t = Some (a, b) \<Longrightarrow> a \<in> set targets \<and> b \<in> set targets"
  by (induction targets t rule: findBracket.induct) (auto split: if_splits)

lemma smoothAlpha_bounds: "0 \<le> 0.5 - 0.5 * cos x" "0.5 - 0.5 * cos x \<le> (1::real)"
  using cos_le_one [of x] cos_ge_minus_one [of x] by linarith+

lemma ease_bounds:
  assumes "0 \<le> s" "s \<le> 1" "lo \<le> a" "a \<le> hi" "lo \<le> b" "b \<le> hi"
  shows "lo \<le> a + s * (b - a) \<and> a + s * (b - a) \<le> (hi::real)"
proof -
  have eq: "a + s * (b - a) = (1 - s) * a + s * b"
    by (simp add: algebra_simps)
  have "(1 - s) * lo + s * lo \<le> (1 - s) * a + s * b"
    using assms by (intro add_mono mult_left_mono) simp_all
  moreover have "(1 - s) * a + s * b \<le> (1 - s) * hi + s * hi"
    using assms by (intro add_mono mult_left_mono) simp_all
  ultimately show ?thesis
    unfolding eq by (simp add: algebra_simps)
qed

lemma ease_nonneg:
  assumes "0 \<le> s" "s \<le> 1" "0 \<le> a" "0 \<le> b"
  shows "0 \<le> a + s * (b - a :: real)"
  using ease_bounds [OF assms(1,2), of 0 a "max a b" b] assms by simp

lemma samplePoints_good:
  assumes good: "list_all goodTarget targets" and ne: "targets \<noteq> []"
  shows "goodSample i (fst (samplePoints targets i))
    \<and> goodSample i (fst (snd (samplePoints targets i)))
    \<and> goodSample i (snd (snd (samplePoints targets i)))"
proof -
  let ?t = "real i * 0.01"
  obtain prev nxt where br: "(case findBracket targets ?t of Some bracket \<Rightarrow> bracket
      | None \<Rightarrow> (targets ! 0, targets ! (length targets - 1))) = (prev, nxt)"
    by (metis surj_pair)
  have mem: "prev \<in> set targets \<and> nxt \<in> set targets"
  proof (cases "findBracket targets ?t")
    case None
    with br ne show ?thesis
      by (auto simp: nth_mem)
  next
    case (Some bracket)
    with br findBracket_mem [of targets ?t prev nxt] show ?thesis
      by simp
  qed
  with good have g: "goodTarget prev" "goodTarget nxt"
    by (simp_all add: list_all_iff)
  define s where "s = 0.5 - 0.5 * cos ((if target_time nxt - target_time prev > 0
      then (?t - target_time prev) / (target_time nxt - target_time prev) else 0) * pi)"
  have s: "0 \<le> s" "s \<le> 1"
    unfolding s_def by (rule smoothAlpha_bounds)+
  have sp: "samplePoints targets i
      = (\<lparr>point_t = ?t, point_freq = target_f1 prev + s * (target_f1 nxt - target_f1 prev),
           point_amp = (target_amp prev + s * (target_amp nxt - target_amp prev)) * FORMANT_AMPLITUDES_F1\<rparr>,
         \<lparr>point_t = ?t, point_freq = target_f2 prev + s * (target_f2 nxt - target_f2 prev),
           point_amp = (target_amp prev + s * (target_amp nxt - target_amp prev)) * FORMANT_AMPLITUDES_F2\<rparr>,
         \<lparr>point_t = ?t, point_freq = target_f3 prev + s * (target_f3 nxt - target_f3 prev),
           point_amp = (target_amp prev + s * (target_amp nxt - target_amp prev)) * FORMANT_AMPLITUDES_F3\<rparr>)"
    unfolding samplePoints_def Let_def br s_def by simp
  from g have f: "0 \<le> target_f1 prev + s * (target_f1 nxt - target_f1 prev)"
    "0 \<le> target_f2 prev + s * (target_f2 nxt - target_f2 prev)"
    "0 \<le> target_f3 prev + s * (target_f3 nxt - target_f3 prev)"
    by (simp_all add: goodTarget_def ease_nonneg [OF s])
  from g ease_bounds [OF s, of 0 "target_amp prev" 1 "target_amp nxt"]
  have a: "0 \<le> target_amp prev + s * (target_amp nxt - target_amp prev)"
    "target_amp prev + s * (target_amp nxt - target_amp prev) \<le> 1"
    by (simp_all add: goodTarget_def)
  have w: "0 \<le> x * w \<and> x * w \<le> 1" if "0 \<le> w" "w \<le> 1" "0 \<le> x" "x \<le> 1" for x w :: real
    using that by (simp add: mult_le_one)
  from w [OF _ _ a, of FORMANT_AMPLITUDES_F1] w [OF _ _ a, of FORMANT_AMPLITUDES_F2]
    w [OF _ _ a, of FORMANT_AMPLITUDES_F3] f
  show ?thesis
    by (simp add: sp goodSample_def FORMANT_AMPLITUDES_F1_def FORMANT_AMPLITUDES_F2_def
        FORMANT_AMPLITUDES_F3_def)
qed

lemma phonemesToTrajectory_wellFormed:
  "wellFormed (traj_formants (phonemesToTrajectory phonemes))"
proof -
  obtain targets c where tc: "allTargets phonemes = (targets, c)"
    by (cases "allTargets phonemes")
  with allTargets_good [of phonemes] have good: "list_all goodTarget targets" "targets \<noteq> []"
    by simp_all
  define n where "n = nat \<lceil>(c + 0.04) / 0.01\<rceil> + 1"
  define points where "points = map (samplePoints targets) [0..<n]"
  have tr: "traj_formants (phonemesToTrajectory phonemes)
      = \<lparr>F1 = map fst points, F2 = map (fst \<circ> snd) points, F3 = map (snd \<circ> snd) points\<rparr>"
    by (simp add: phonemesToTrajectory_def tc Let_def points_def n_def)
  note sg = samplePoints_good [OF good]
  have times: "map point_t (map fst points) = map (\<lambda>i. real i * 0.01) [0..<n]"
    "map point_t (map (fst \<circ> snd) points) = map (\<lambda>i. real i * 0.01) [0..<n]"
    "map point_t (map (snd \<circ> snd) points) = map (\<lambda>i. real i * 0.01) [0..<n]"
    using sg by (simp_all add: points_def goodSample_def)
  have "sorted_wrt (<) (map (\<lambda>i. real i * 0.01) [0..<n])"
    by (simp add: sorted_wrt_map sorted_wrt_iff_nth_less)
  moreover have "list_all (\<lambda>p. 0 \<le> point_freq p \<and> 0 \<le> point_amp p \<and> point_amp p \<le> 1)
      (map fst points @ map (fst \<circ> snd) points @ map (snd \<circ> snd) points)"
    using sg by (auto simp: points_def goodSample_def list_all_iff)
  ultimately show ?thesis
    unfolding tr wellFormed_def allPoints_def using times by simp
qed

section \<open>Properties of the orchestrator\<close>

lemma textToPhonemes_empty: "textToPhonemes [] = Inr []"
  by (simp add: textToPhonemes_def toLowerCase_def stripPunctuation_def splitWhitespace_def)

lemma samplePoints_silent:
  "samplePoints
     [\<lparr>target_time = 0, target_f1 = 400, target_f2 = 1500, target_f3 = 2500, target_amp = 0\<rparr>,
      \<lparr>target_time = e, target_f1 = 400, target_f2 = 1500, target_f3 = 2500, target_amp = 0\<rparr>] i
   = (\<lparr>point_t = real i * 0.01, point_freq = 400, point_amp = 0\<rparr>,
      \<lparr>point_t = real i * 0.01, point_freq = 1500, point_amp = 0\<rparr>,
      \<lparr>point_t = real i * 0.01, point_freq = 2500, point_amp = 0\<rparr>)"
  by (simp add: samplePoints_def Let_def)

lemma phonemesToTrajectory_empty:
  "phonemesToTrajectory []
   = \<lparr>traj_duration = 0.06,
      traj_formants = \<lparr>F1 = silentTrack 400, F2 = silentTrack 1500, F3 = silentTrack 2500\<rparr>\<rparr>"
proof -
  have t: "allTargets []
      = ([\<lparr>target_time = 0, target_f1 = 400, target_f2 = 1500, target_f3 = 2500, target_amp = 0\<rparr>,
          \<lparr>target_time = 0.04, target_f1 = 400, target_f2 = 1500, target_f3 = 2500, target_amp = 0\<rparr>],
         0.02)"
    by (simp add: allTargets_def)
  have n: "nat \<lceil>(0.02 + 0.04) / (0.01 :: real)\<rceil> + 1 = 7"
    by simp
  show ?thesis
    unfolding phonemesToTrajectory_def t Let_def prod.case n
    by (simp add: silentTrack_def samplePoints_silent comp_def del: upt_Suc)
qed

lemma generateWithPhonemeMapping_empty: "generateWithPhonemeMapping [] = Inr silentUtterance"
  by (simp add: generateWithPhonemeMapping_def textToTrajectory_def textToPhonemes_empty
      phonemesToTrajectory_empty silentUtterance_def)

lemma textToPhonemes_constructor: "textToPhonemes ''constructor'' = Inl TypeError"
proof -
  have w: "splitWhitespace (stripPunctuation (toLowerCase ''constructor'')) = [''constructor'']"
    by (simp add: splitWhitespace_def stripPunctuation_def toLowerCase_def toLowerChar_def
        isWordChar_def isSpaceChar_def)
  have p: "getProperty WORD_PRONUNCIATIONS ''constructor'' = Inherited"
    by (simp add: getProperty_def WORD_PRONUNCIATIONS_def objectPrototypeKeys_def)
  show ?thesis
    by (simp add: textToPhonemes_def w p)
qed

lemma analyze_default:
  "\<exists>tr. analyze (newLPCAnalyzer 8000 256 12) audioBuffer inputSampleRate = Some tr
     \<and> wellFormed tr
     \<and> length (F1 tr) = length (resample audioBuffer inputSampleRate 8000) div 256"
  using analyze_wellFormed [of "newLPCAnalyzer 8000 256 12" audioBuffer inputSampleRate]
  by (simp add: newLPCAnalyzer_def)

lemma generateWithLPC_rejected:
  "tts_synthesize tts text = Inl e \<Longrightarrow> generateWithLPC tts text = Some (Inl e)"
  by (simp add: generateWithLPC_def)

lemma generateWithLPC_resolved:
  assumes "tts_synthesize tts text = Inr audioBuffer"
    and "analyze (newLPCAnalyzer 8000 256 12) audioBuffer (tts_sampleRate tts) = Some tr"
  shows "generateWithLPC tts text
    = Some (Inr \<lparr>utt_id = ''lpc-analyzed'', transcript = text,
                  duration = real (length audioBuffer) / tts_sampleRate tts, formants = tr,
                  originalAudio = Some audioBuffer, originalSampleRate = Some (tts_sampleRate tts),
                  analysisMethod = ''lpc''\<rparr>)"
  using assms by (simp add: generateWithLPC_def Let_def)

lemma generateWithPhonemeMapping_cases:
  "generateWithPhonemeMapping text
   = (case textToPhonemes text of
        Inl e \<Rightarrow> Inl e
      | Inr phonemes \<Rightarrow>
          Inr \<lparr>utt_id = ''phoneme-mapped'', transcript = text,
               duration = traj_duration (phonemesToTrajectory phonemes),
               formants = traj_formants (phonemesToTrajectory phonemes),
               originalAudio = None, originalSampleRate = None,
               analysisMethod = ''phoneme-mapping''\<rparr>)"
  by (simp add: generateWithPhonemeMapping_def textToTrajectory_def split: sum.splits)

lemma generateWithPhonemeMapping_wellFormed:
  "generateWithPhonemeMapping text = Inr utt \<Longrightarrow>
     wellFormed (formants utt) \<and> analysisMethod utt = ''phoneme-mapping''"
  using phonemesToTrajectory_wellFormed
  by (auto simp: generateWithPhonemeMapping_cases split: sum.splits)

text \<open>
  \<^verbatim>\<open>generateFromText\<close> by cases: \<^verbatim>\<open>analyze\<close> always returns, so the result is never
  \<open>None\<close>; a rejection of the waveform source leads to the phoneme path.
\<close>

lemma generateFromText_cases:
  "generateFromText player tts text
   = (if useLPCAnalysis player \<and> tts_isReady tts then
        (case tts_synthesize tts text of
           Inl e \<Rightarrow> Some (generateWithPhonemeMapping text)
         | Inr audioBuffer \<Rightarrow> generateWithLPC tts text)
      else Some (generateWithPhonemeMapping text))"
proof (cases "useLPCAnalysis player \<and> tts_isReady tts")
  case False
  then show ?thesis
    by (auto simp: generateFromText_def split: sum.splits)
next
  case True
  show ?thesis
  proof (cases "tts_synthesize tts text")
    case (Inl e)
    with True show ?thesis
      by (simp add: generateFromText_def generateWithLPC_rejected)
  next
    case (Inr audioBuffer)
    from analyze_default obtain tr
      where "analyze (newLPCAnalyzer 8000 256 12) audioBuffer (tts_sampleRate tts) = Some tr"
      by blast
    from generateWithLPC_resolved [OF Inr this] True Inr show ?thesis
      by (simp add: generateFromText_def)
  qed
qed

lemma generateFromText_wellFormed:
  assumes "generateFromText player tts text = Some (Inr utt)"
  shows "wellFormed (formants utt)"
proof (cases "useLPCAnalysis player \<and> tts_isReady tts")
  case False
  with assms generateWithPhonemeMapping_wellFormed [of "text" utt] show ?thesis
    by (simp add: generateFromText_cases)
next
  case True
  show ?thesis
  proof (cases "tts_synthesize tts text")
    case (Inl e)
    with True assms generateWithPhonemeMapping_wellFormed [of "text" utt] show ?thesis
      by (simp add: generateFromText_cases)
  next
    case (Inr audioBuffer)
    from analyze_default obtain tr
      where tr: "analyze (newLPCAnalyzer 8000 256 12) audioBuffer (tts_sampleRate tts) = Some tr"
        "wellFormed tr"
      by blast
    from generateWithLPC_resolved [OF Inr tr(1)] True Inr assms tr(2) show ?thesis
      by (auto simp: generateFromText_cases)
  qed
qed

lemma analyze_short_example:
  "analyze (newLPCAnalyzer 8000 256 12) [0, 0, 0] 8000 = Some \<lparr>F1 = [], F2 = [], F3 = []\<rparr>"
proof -
  have "map fst (analysisFrames (newLPCAnalyzer 8000 256 12) [0, 0, 0] 8000) = []"
    unfolding analysisFrames_hops by (simp add: resample_def newLPCAnalyzer_def)
  then have "analysisFrames (newLPCAnalyzer 8000 256 12) [0, 0, 0] 8000 = []"
    by simp
  then show ?thesis
    by (simp add: analyze_def analyzeFrames_tracking trackAll_def normalizeAmplitudes_def
        globalMaxOf_def)
qed

text \<open>
  Claim C4, as stated, fails: \<^verbatim>\<open>analyze\<close> has no test of the length and no \<^verbatim>\<open>throw\<close>. For
  a buffer of three samples at 8000 Hz it returns three empty tracks, and the orchestrator
  returns them tagged \<^verbatim>\<open>lpc\<close>, without falling back.
\<close>

theorem analyze_short_counterexample:
  "length (resample [0, 0, 0] 8000 8000) < 512
   \<and> analyze (newLPCAnalyzer 8000 256 12) [0, 0, 0] 8000 = Some \<lparr>F1 = [], F2 = [], F3 = []\<rparr>
   \<and> generateFromText \<lparr>useLPCAnalysis = True\<rparr> shortWaveform ''hi''
       = Some (Inr \<lparr>utt_id = ''lpc-analyzed'', transcript = ''hi'', duration = 3 / 8000,
                     formants = \<lparr>F1 = [], F2 = [], F3 = []\<rparr>,
                     originalAudio = Some [0, 0, 0], originalSampleRate = Some 8000,
                     analysisMethod = ''lpc''\<rparr>)"
proof -
  have s: "tts_synthesize shortWaveform ''hi'' = Inr [0, 0, 0]" "tts_sampleRate shortWaveform = 8000"
    "tts_isReady shortWaveform"
    by (simp_all add: shortWaveform_def)
  from generateWithLPC_resolved [OF s(1)] analyze_short_example s
  have "generateFromText \<lparr>useLPCAnalysis = True\<rparr> shortWaveform ''hi''
      = Some (Inr \<lparr>utt_id = ''lpc-analyzed'', transcript = ''hi'', duration = 3 / 8000,
                    formants = \<lparr>F1 = [], F2 = [], F3 = []\<rparr>,
                    originalAudio = Some [0, 0, 0], originalSampleRate = Some 8000,
                    analysisMethod = ''lpc''\<rparr>)"
    by (simp add: generateFromText_cases)
  with analyze_short_example show ?thesis
    by (simp add: resample_def)
qed

text \<open>
  Claim C4, amended. For every input buffer whose resampled length \<open>n\<close> at 8000 Hz is below
  one analysis window (512 samples), \<^verbatim>\<open>analyze\<close> returns a trajectory: \<open>n div 256\<close> points
  in each of the three tracks, so none or one; and an orchestrator that takes the LPC path
  with this buffer returns that trajectory tagged \<^verbatim>\<open>lpc\<close>, with no fallback.
\<close>

theorem analyze_short_returns:
  assumes "length (resample audioBuffer inputSampleRate 8000) < 512"
  shows "\<exists>tr. analyze (newLPCAnalyzer 8000 256 12) audioBuffer inputSampleRate = Some tr
    \<and> length (F1 tr) = length (resample audioBuffer inputSampleRate 8000) div 256
    \<and> length (F2 tr) = length (F1 tr) \<and> length (F3 tr) = length (F1 tr)
    \<and> length (F1 tr) \<le> 1
    \<and> (useLPCAnalysis player \<and> tts_isReady tts \<and> tts_synthesize tts text = Inr audioBuffer
          \<and> tts_sampleRate tts = inputSampleRate \<longrightarrow>
        (\<exists>utt. generateFromText player tts text = Some (Inr utt)
           \<and> analysisMethod utt = ''lpc'' \<and> formants utt = tr))"
proof -
  from analyze_default [of audioBuffer inputSampleRate] obtain tr
    where tr: "analyze (newLPCAnalyzer 8000 256 12) audioBuffer inputSampleRate = Some tr"
      "wellFormed tr"
      "length (F1 tr) = length (resample audioBuffer inputSampleRate 8000) div 256"
    by blast
  from tr(2) have len: "length (F2 tr) = length (F1 tr)" "length (F3 tr) = length (F1 tr)"
    by (simp_all add: wellFormed_def)
  from assms tr(3) have le: "length (F1 tr) \<le> 1"
    by simp
  have "\<exists>utt. generateFromText player tts text = Some (Inr utt)
      \<and> analysisMethod utt = ''lpc'' \<and> formants utt = tr"
    if "useLPCAnalysis player \<and> tts_isReady tts \<and> tts_synthesize tts text = Inr audioBuffer
      \<and> tts_sampleRate tts = inputSampleRate"
  proof -
    from that tr(1) have "analyze (newLPCAnalyzer 8000 256 12) audioBuffer (tts_sampleRate tts) = Some tr"
      by simp
    from generateWithLPC_resolved [OF _ this, of "text"] that show ?thesis
      by (simp add: generateFromText_cases)
  qed
  with tr(1,3) len le show ?thesis
    by blast
qed

theorem analyze_short_returns_witness:
  "length (resample [0, 0, 0] 8000 8000) < 512
   \<and> useLPCAnalysis \<lparr>useLPCAnalysis = True\<rparr> \<and> tts_isReady shortWaveform
   \<and> tts_synthesize shortWaveform ''hi'' = Inr [0, 0, 0] \<and> tts_sampleRate shortWaveform = 8000
   \<and> (\<exists>tr utt. analyze (newLPCAnalyzer 8000 256 12) [0, 0, 0] 8000 = Some tr
        \<and> length (F1 tr) = 0
        \<and> generateFromText \<lparr>useLPCAnalysis = True\<rparr> shortWaveform ''hi'' = Some (Inr utt)
        \<and> analysisMethod utt = ''lpc'' \<and> formants utt = tr)"
proof -
  have s: "length (resample [0, 0, 0] 8000 8000) < 512"
    "useLPCAnalysis \<lparr>useLPCAnalysis = True\<rparr>" "tts_isReady shortWaveform"
    "tts_synthesize shortWaveform ''hi'' = Inr [0, 0, 0]" "tts_sampleRate shortWaveform = 8000"
    by (simp_all add: shortWaveform_def resample_def)
  have d: "length (resample [0, 0, 0] 8000 8000) div 256 = 0"
    by (simp add: resample_def)
  from analyze_short_returns [OF s(1), of "\<lparr>useLPCAnalysis = True\<rparr>" shortWaveform "''hi''"] s d
  show ?thesis
    by auto
qed

text \<open>
  Claim C8, as stated, fails: with no waveform source and the empty text,
  \<^verbatim>\<open>generateFromText\<close> resolves with a trajectory of the phoneme path, 0.06 s of silence.
\<close>

theorem emptyInput_counterexample:
  "generateFromText \<lparr>useLPCAnalysis = False\<rparr> noWaveform [] = Some (Inr silentUtterance)
   \<and> analysisMethod silentUtterance = ''phoneme-mapping''
   \<and> duration silentUtterance = 0.06
   \<and> length (F1 (formants silentUtterance)) = 7"
  by (simp add: generateFromText_cases generateWithPhonemeMapping_empty)
     (simp add: silentUtterance_def silentTrack_def)

text \<open>
  Claim C8, amended. For the empty text \<^verbatim>\<open>generateFromText\<close> never fails: it resolves with
  a trajectory for every player and waveform source, and whenever the LPC path is not taken
  or the waveform source rejects, that trajectory is the silent one of the phoneme path
  (tagged \<^verbatim>\<open>phoneme-mapping\<close>, 0.06 s, every amplitude 0).
\<close>

theorem emptyInput_returns:
  "(\<exists>utt. generateFromText player tts [] = Some (Inr utt))
   \<and> ((useLPCAnalysis player \<and> tts_isReady tts \<longrightarrow> (\<exists>e. tts_synthesize tts [] = Inl e))
        \<longrightarrow> generateFromText player tts [] = Some (Inr silentUtterance))
   \<and> analysisMethod silentUtterance = ''phoneme-mapping''
   \<and> duration silentUtterance = 0.06
   \<and> list_all (\<lambda>p. point_amp p = 0) (allPoints (formants silentUtterance))"
proof -
  have ex: "\<exists>utt. generateFromText player tts [] = Some (Inr utt)"
  proof (cases "useLPCAnalysis player \<and> tts_isReady tts")
    case False
    then show ?thesis
      by (auto simp: generateFromText_cases generateWithPhonemeMapping_empty)
  next
    case True
    show ?thesis
    proof (cases "tts_synthesize tts []")
      case (Inl e)
      with True show ?thesis
        by (simp add: generateFromText_cases generateWithPhonemeMapping_empty)
    next
      case (Inr audioBuffer)
      from analyze_default obtain tr
        where "analyze (newLPCAnalyzer 8000 256 12) audioBuffer (tts_sampleRate tts) = Some tr"
        by blast
      from generateWithLPC_resolved [OF Inr this] True Inr show ?thesis
        by (simp add: generateFromText_cases)
    qed
  qed
  have fb: "generateFromText player tts [] = Some (Inr silentUtterance)"
    if "useLPCAnalysis player \<and> tts_isReady tts \<longrightarrow> (\<exists>e. tts_synthesize tts [] = Inl e)"
    using that by (auto simp: generateFromText_cases generateWithPhonemeMapping_empty)
  have "list_all (\<lambda>p. point_amp p = 0) (allPoints (formants silentUtterance))"
    by (auto simp: silentUtterance_def allPoints_def silentTrack_def list_all_iff)
  with ex fb show ?thesis
    by (simp add: silentUtterance_def)
qed

theorem emptyInput_returns_witness:
  "useLPCAnalysis \<lparr>useLPCAnalysis = True\<rparr> \<and> tts_isReady failingWaveform
   \<and> tts_synthesize failingWaveform [] = Inl SynthesisError
   \<and> generateFromText \<lparr>useLPCAnalysis = True\<rparr> failingWaveform [] = Some (Inr silentUtterance)"
proof -
  have s: "useLPCAnalysis \<lparr>useLPCAnalysis = True\<rparr>" "tts_isReady failingWaveform"
    "tts_synthesize failingWaveform [] = Inl SynthesisError"
    by (simp_all add: failingWaveform_def)
  with emptyInput_returns [of "\<lparr>useLPCAnalysis = True\<rparr>" failingWaveform] show ?thesis
    by simp
qed

text \<open>
  Claim C9. Every trajectory returned by \<^verbatim>\<open>analyze\<close> (for the analyzer the player builds),
  by \<^verbatim>\<open>textToTrajectory\<close> and by \<^verbatim>\<open>generateFromText\<close> is well formed: three tracks of
  equal length with the same point times, strictly increasing, no negative frequency, every
  amplitude in \<open>[0, 1]\<close>.
\<close>

theorem trajectories_wellFormed:
  "(analyze (newLPCAnalyzer 8000 256 12) audioBuffer inputSampleRate = Some tr \<longrightarrow> wellFormed tr)
   \<and> (textToTrajectory text = Inr trajectory \<longrightarrow> wellFormed (traj_formants trajectory))
   \<and> (generateFromText player tts text = Some (Inr utt) \<longrightarrow> wellFormed (formants utt))"
proof -
  have "wellFormed tr" if "analyze (newLPCAnalyzer 8000 256 12) audioBuffer inputSampleRate = Some tr"
    using that analyze_default [of audioBuffer inputSampleRate] by auto
  moreover have "wellFormed (traj_formants trajectory)" if "textToTrajectory text = Inr trajectory"
    using that phonemesToTrajectory_wellFormed
    by (auto simp: textToTrajectory_def split: sum.splits)
  moreover have "wellFormed (formants utt)" if "generateFromText player tts text = Some (Inr utt)"
    using that by (rule generateFromText_wellFormed)
  ultimately show ?thesis
    by blast
qed

theorem trajectories_wellFormed_witness:
  "analyze (newLPCAnalyzer 8000 256 12) [0, 0, 0] 8000 = Some \<lparr>F1 = [], F2 = [], F3 = []\<rparr>
   \<and> wellFormed \<lparr>F1 = [], F2 = [], F3 = []\<rparr>
   \<and> textToTrajectory [] = Inr (phonemesToTrajectory [])
   \<and> wellFormed (traj_formants (phonemesToTrajectory []))
   \<and> generateFromText \<lparr>useLPCAnalysis = False\<rparr> noWaveform [] = Some (Inr silentUtterance)
   \<and> wellFormed (formants silentUtterance)"
proof -
  have a: "analyze (newLPCAnalyzer 8000 256 12) [0, 0, 0] 8000 = Some \<lparr>F1 = [], F2 = [], F3 = []\<rparr>"
    by (rule analyze_short_example)
  have t: "textToTrajectory [] = Inr (phonemesToTrajectory [])"
    by (simp add: textToTrajectory_def textToPhonemes_empty)
  have g: "generateFromText \<lparr>useLPCAnalysis = False\<rparr> noWaveform [] = Some (Inr silentUtterance)"
    by (simp add: generateFromText_cases generateWithPhonemeMapping_empty)
  from trajectories_wellFormed [of "[0, 0, 0]" 8000 "\<lparr>F1 = [], F2 = [], F3 = []\<rparr>" "[]"
      "phonemesToTrajectory []" "\<lparr>useLPCAnalysis = False\<rparr>" noWaveform silentUtterance] a t g
  show ?thesis
    by simp
qed

text \<open>
  Claim C2 at the text "constructor". \<^verbatim>\<open>WORD_PRONUNCIATIONS["constructor"]\<close> reads the
  inherited \<^verbatim>\<open>Object.prototype.constructor\<close>, which is truthy and not iterable, so
  \<^verbatim>\<open>textToPhonemes\<close> throws a \<^verbatim>\<open>TypeError\<close>. The \<^verbatim>\<open>catch\<close> block of
  \<^verbatim>\<open>generateFromText\<close> calls the phoneme path unprotected, so the promise rejects: both
  when no waveform source is ready and when the source is ready and rejects.
\<close>

theorem generateFromText_constructor:
  "textToPhonemes ''constructor'' = Inl TypeError
   \<and> generateFromText \<lparr>useLPCAnalysis = False\<rparr> noWaveform ''constructor'' = Some (Inl TypeError)
   \<and> generateFromText \<lparr>useLPCAnalysis = True\<rparr> failingWaveform ''constructor'' = Some (Inl TypeError)"
  by (simp add: generateFromText_cases generateWithPhonemeMapping_cases textToPhonemes_constructor
      noWaveform_def failingWaveform_def)

text \<open>
  For every text on which the phoneme mapping does not throw, \<^verbatim>\<open>generateFromText\<close>
  resolves with exactly one utterance for that text: tagged \<^verbatim>\<open>lpc\<close> and holding the
  result of \<^verbatim>\<open>analyze\<close> when the LPC path is taken and the waveform source resolves, tagged
  \<^verbatim>\<open>phoneme-mapping\<close> and holding the phoneme trajectory of the same text otherwise.
\<close>

theorem generateFromText_tagged:
  assumes "textToPhonemes text = Inr phonemes"
  shows "\<exists>utt. generateFromText player tts text = Some (Inr utt)
    \<and> transcript utt = text
    \<and> (if useLPCAnalysis player \<and> tts_isReady tts \<and> (\<exists>audioBuffer. tts_synthesize tts text = Inr audioBuffer)
        then analysisMethod utt = ''lpc''
          \<and> Some (formants utt)
              = analyze (newLPCAnalyzer 8000 256 12) (projr (tts_synthesize tts text)) (tts_sampleRate tts)
        else analysisMethod utt = ''phoneme-mapping''
          \<and> formants utt = traj_formants (phonemesToTrajectory phonemes))"
proof (cases "useLPCAnalysis player \<and> tts_isReady tts")
  case False
  with assms show ?thesis
    by (auto simp: generateFromText_cases generateWithPhonemeMapping_cases)
next
  case True
  show ?thesis
  proof (cases "tts_synthesize tts text")
    case (Inl e)
    with True assms show ?thesis
      by (simp add: generateFromText_cases generateWithPhonemeMapping_cases)
  next
    case (Inr audioBuffer)
    from analyze_default obtain tr
      where tr: "analyze (newLPCAnalyzer 8000 256 12) audioBuffer (tts_sampleRate tts) = Some tr"
      by blast
    from generateWithLPC_resolved [OF Inr tr] True Inr tr show ?thesis
      by (simp add: generateFromText_cases)
  qed
qed

theorem generateFromText_tagged_witness:
  "textToPhonemes ''hello world'' = Inr helloWorld
   \<and> generateFromText \<lparr>useLPCAnalysis = True\<rparr> failingWaveform ''hello world''
       = Some (Inr \<lparr>utt_id = ''phoneme-mapped'', transcript = ''hello world'', duration = 0.72,
                     formants = traj_formants (phonemesToTrajectory helloWorld),
                     originalAudio = None, originalSampleRate = None,
                     analysisMethod = ''phoneme-mapping''\<rparr>)"
proof -
  have s: "tts_synthesize failingWaveform ''hello world'' = Inl SynthesisError"
    by (simp add: failingWaveform_def)
  have d: "traj_duration (phonemesToTrajectory helloWorld) = 0.72"
    by (simp add: phonemesToTrajectory_duration) (simp add: helloWorld_def)
  from generateFromText_tagged [OF textToPhonemes_hello_world, of "\<lparr>useLPCAnalysis = True\<rparr>" failingWaveform]
  obtain utt where utt: "generateFromText \<lparr>useLPCAnalysis = True\<rparr> failingWaveform ''hello world'' = Some (Inr utt)"
    "analysisMethod utt = ''phoneme-mapping''"
    "formants utt = traj_formants (phonemesToTrajectory helloWorld)"
    by (auto simp: s)
  from utt(1) have "utt = \<lparr>utt_id = ''phoneme-mapped'', transcript = ''hello world'', duration = 0.72,
                     formants = traj_formants (phonemesToTrajectory helloWorld),
                     originalAudio = None, originalSampleRate = None,
                     analysisMethod = ''phoneme-mapping''\<rparr>"
    by (simp add: generateFromText_cases failingWaveform_def generateWithPhonemeMapping_cases
        textToPhonemes_hello_world d)
  with utt(1) textToPhonemes_hello_world show ?thesis
    by simp
qed

end
